theory Spec2Isabelle
  imports Main "HOL-Library.Multiset"
begin

section \<open>JavaScript values, errors, files and blobs\<close>

text \<open>
  The gallery script stores image records in one IndexedDB object store and renders them
  into the page. The script is modelled by explicit state passing over a \<open>session\<close>
  record that holds the browser's databases, the module variable \<open>db\<close> and the parts of
  the page the script writes. Whatever the browser decides (whether a request fails,
  what \<open>Date.now()\<close> reads, what \<open>confirm\<close> answers) is an argument of the function that
  asks for it.

  A \<open>name\<close> read back from a record is a JavaScript value: the script tests it for
  truthiness (\<open>item.name || 'photo'\<close>) and converts it with \<open>String\<close>.
\<close>

datatype js_value = Undefined | Null | Str string

fun truthy :: "js_value \<Rightarrow> bool" where
  "truthy Undefined = False"
| "truthy Null = False"
| "truthy (Str s) = (s \<noteq> [])"

definition js_or :: "js_value \<Rightarrow> js_value \<Rightarrow> js_value" where
  "js_or a b = (if truthy a then a else b)"

fun js_String :: "js_value \<Rightarrow> string" where
  "js_String Undefined = ''undefined''"
| "js_String Null = ''null''"
| "js_String (Str s) = s"

text \<open>
  A rejected promise carries an error. \<open>TypeError\<close> is what reading \<open>db.transaction\<close>
  throws while \<open>db\<close> is still undefined; the other three are raised by IndexedDB itself,
  and \<open>RequestError\<close> is any failure the browser reports through \<open>onerror\<close> (quota, I/O,
  storage disabled).
\<close>

datatype js_error =
  TypeError | NotFoundError | ConstraintError | VersionError | RequestError string

record js_blob =
  bytes :: "nat list"
  ctype :: string

record js_file =
  file_name :: string
  file_type :: string
  file_bytes :: "nat list"

definition file_size :: "js_file \<Rightarrow> nat" where
  "file_size f = length (file_bytes f)"

definition slice :: "js_file \<Rightarrow> nat \<Rightarrow> nat \<Rightarrow> string \<Rightarrow> js_blob" where
  "slice f start stop contentType =
     \<lparr>bytes = take (stop - start) (drop start (file_bytes f)), ctype = contentType\<rparr>"

fun startsWith :: "string \<Rightarrow> string \<Rightarrow> bool" where
  "startsWith s [] = True"
| "startsWith [] (p # ps) = False"
| "startsWith (c # s) (p # ps) = (c = p \<and> startsWith s ps)"

fun show_nat :: "nat \<Rightarrow> string" where
  "show_nat n =
     (if n < 10 then [''0123456789'' ! n]
      else show_nat (n div 10) @ [''0123456789'' ! (n mod 10)])"

declare show_nat.simps [simp del]

definition show_int :: "int \<Rightarrow> string" where
  "show_int i = (if i < 0 then ''-'' @ show_nat (nat (- i)) else show_nat (nat i))"

section \<open>The browser's IndexedDB\<close>

text \<open>
  An object store created with \<open>{ keyPath: 'id', autoIncrement: true }\<close> keeps its
  records in ascending key order and owns a key generator whose current number starts
  at 1. \<open>add\<close> of a value without an \<open>id\<close> stores it under the generator's current
  number and advances the generator; it fails with \<open>ConstraintError\<close> when the key is
  taken. \<open>clear\<close> empties the store and leaves the generator alone.
\<close>

record image_record =
  id_key :: int
  name :: js_value
  blob :: js_blob
  created :: int

record object_store =
  records :: "image_record list"
  keygen :: int

record database =
  version :: nat
  objectStores :: "string \<rightharpoonup> object_store"

record indexeddb =
  databases :: "string \<rightharpoonup> database"
  connections :: nat

record connection =
  conn_id :: nat
  conn_db :: string

definition store_add :: "js_value \<Rightarrow> js_blob \<Rightarrow> int \<Rightarrow> object_store \<Rightarrow> js_error + int \<times> object_store" where
  "store_add nm bl cr st =
     (let k = keygen st in
      if k \<in> set (map id_key (records st)) then Inl ConstraintError
      else Inr (k, \<lparr>records = insort_key id_key
                        \<lparr>id_key = k, name = nm, blob = bl, created = cr\<rparr> (records st),
                    keygen = k + 1\<rparr>))"

definition store_getAll :: "object_store \<Rightarrow> image_record list" where
  "store_getAll st = records st"

definition store_delete :: "int \<Rightarrow> object_store \<Rightarrow> object_store" where
  "store_delete i st = st\<lparr>records := filter (\<lambda>r. id_key r \<noteq> i) (records st)\<rparr>"

definition store_clear :: "object_store \<Rightarrow> object_store" where
  "store_clear st = st\<lparr>records := []\<rparr>"

text \<open>
  \<open>indexedDB.open(name, v)\<close>: a database that does not exist is created and upgraded to
  version \<open>v\<close>; an older one is upgraded; a newer one refuses the request. The upgrade
  runs the caller's \<open>onupgradeneeded\<close> handler. Every successful request hands out a
  new connection.
\<close>

definition idb_open ::
  "string \<Rightarrow> nat \<Rightarrow> (database \<Rightarrow> database) \<Rightarrow> indexeddb \<Rightarrow> js_error + connection \<times> indexeddb" where
  "idb_open nm v onupgradeneeded b =
     (let c = \<lparr>conn_id = connections b, conn_db = nm\<rparr>;
          b' = b\<lparr>connections := Suc (connections b)\<rparr>
      in case databases b nm of
           None \<Rightarrow>
             Inr (c, b'\<lparr>databases := (databases b)
                    (nm \<mapsto> onupgradeneeded \<lparr>version = v, objectStores = Map.empty\<rparr>)\<rparr>)
         | Some d \<Rightarrow>
             if v < version d then Inl VersionError
             else if version d < v then
               Inr (c, b'\<lparr>databases := (databases b)(nm \<mapsto> onupgradeneeded (d\<lparr>version := v\<rparr>))\<rparr>)
             else Inr (c, b'))"

section \<open>The script's state\<close>

text \<open>
  A child of \<open>galleryGrid\<close> is either what an assignment to \<open>innerHTML\<close> parsed (kept as
  the assigned markup) or a \<open>div.card-item\<close> appended by \<open>refreshGallery\<close>, kept as the
  number its delete button reads back from \<open>data-id\<close> and the markup assigned to the
  card.

  \<open>calls\<close> is the log of the store functions entered so far, in call order. The script
  has no such variable; the log is there for the statements about which store
  operations a session invokes.
\<close>

datatype node = Raw string | CardItem int string

datatype store_call = Initialize | Insert | ListAll | DeleteById | ClearAll

record session =
  idb :: indexeddb
  db :: "connection option"
  galleryGrid :: "node list"
  uploadPreview :: "string list"
  console :: "(string \<times> js_error) list"
  fileElem_value :: string
  objectURLs :: nat
  calls :: "store_call list"

definition DB_NAME :: string where "DB_NAME = ''galleryDB''"
definition DB_VERSION :: nat where "DB_VERSION = 1"
definition STORE_NAME :: string where "STORE_NAME = ''images''"

definition enter :: "store_call \<Rightarrow> session \<Rightarrow> session" where
  "enter c s = s\<lparr>calls := calls s @ [c]\<rparr>"

section \<open>The store functions\<close>

definition upgradeneeded :: "database \<Rightarrow> database" where
  "upgradeneeded d =
     (case objectStores d STORE_NAME of
        Some st \<Rightarrow> d
      | None \<Rightarrow> d\<lparr>objectStores := (objectStores d)(STORE_NAME \<mapsto> \<lparr>records = [], keygen = 1\<rparr>)\<rparr>)"

definition openDB :: "js_error option \<Rightarrow> session \<Rightarrow> (js_error + connection) \<times> session" where
  "openDB env s0 =
     (let s = enter Initialize s0 in
      case env of
        Some e \<Rightarrow> (Inl e, s)
      | None \<Rightarrow>
          (case idb_open DB_NAME DB_VERSION upgradeneeded (idb s) of
             Inl e \<Rightarrow> (Inl e, s)
           | Inr (c, b) \<Rightarrow> (Inr c, s\<lparr>idb := b, db := Some c\<rparr>)))"

text \<open>
  \<open>db.transaction(STORE_NAME, mode).objectStore(STORE_NAME)\<close>. It throws inside the
  promise's executor, so the promise is rejected, when \<open>db\<close> is undefined or the
  database has no such store.
\<close>

definition objectStore :: "session \<Rightarrow> js_error + object_store" where
  "objectStore s =
     (case db s of
        None \<Rightarrow> Inl TypeError
      | Some c \<Rightarrow>
          (case databases (idb s) (conn_db c) of
             None \<Rightarrow> Inl NotFoundError
           | Some d \<Rightarrow>
               (case objectStores d STORE_NAME of
                  None \<Rightarrow> Inl NotFoundError
                | Some st \<Rightarrow> Inr st)))"

text \<open>
  A request that succeeds leaves the new content of the store in the database that the
  connection belongs to; nothing else in the browser changes.
\<close>

definition commit :: "object_store \<Rightarrow> session \<Rightarrow> session" where
  "commit st s =
     (case db s of
        None \<Rightarrow> s
      | Some c \<Rightarrow>
          (case databases (idb s) (conn_db c) of
             None \<Rightarrow> s
           | Some d \<Rightarrow>
               s\<lparr>idb := (idb s)\<lparr>databases := (databases (idb s))
                    (conn_db c \<mapsto> d\<lparr>objectStores := (objectStores d)(STORE_NAME \<mapsto> st)\<rparr>)\<rparr>\<rparr>))"

definition addImageBlob ::
  "js_value \<Rightarrow> js_blob \<Rightarrow> int \<Rightarrow> js_error option \<Rightarrow> session \<Rightarrow> (js_error + int) \<times> session" where
  "addImageBlob nm bl now env s0 =
     (let s = enter Insert s0 in
      case objectStore s of
        Inl e \<Rightarrow> (Inl e, s)
      | Inr st \<Rightarrow>
          (case env of
             Some e \<Rightarrow> (Inl e, s)
           | None \<Rightarrow>
               (case store_add nm bl now st of
                  Inl e \<Rightarrow> (Inl e, s)
                | Inr (k, st') \<Rightarrow> (Inr k, commit st' s))))"

definition getAllImages ::
  "js_error option \<Rightarrow> session \<Rightarrow> (js_error + image_record list) \<times> session" where
  "getAllImages env s0 =
     (let s = enter ListAll s0 in
      case objectStore s of
        Inl e \<Rightarrow> (Inl e, s)
      | Inr st \<Rightarrow>
          (case env of
             Some e \<Rightarrow> (Inl e, s)
           | None \<Rightarrow> (Inr (store_getAll st), s)))"

definition deleteImageById ::
  "int \<Rightarrow> js_error option \<Rightarrow> session \<Rightarrow> (js_error + unit) \<times> session" where
  "deleteImageById i env s0 =
     (let s = enter DeleteById s0 in
      case objectStore s of
        Inl e \<Rightarrow> (Inl e, s)
      | Inr st \<Rightarrow>
          (case env of
             Some e \<Rightarrow> (Inl e, s)
           | None \<Rightarrow> (Inr (), commit (store_delete i st) s)))"

definition clearAllImages :: "js_error option \<Rightarrow> session \<Rightarrow> (js_error + unit) \<times> session" where
  "clearAllImages env s0 =
     (let s = enter ClearAll s0 in
      case objectStore s of
        Inl e \<Rightarrow> (Inl e, s)
      | Inr st \<Rightarrow>
          (case env of
             Some e \<Rightarrow> (Inl e, s)
           | None \<Rightarrow> (Inr (), commit (store_clear st) s)))"

section \<open>Rendering\<close>

text \<open>
  \<open>escapeHtml\<close> replaces every match of the character class by the entry of the object
  literal for it; a match with no entry would be replaced by the text \<open>undefined\<close>.
\<close>

definition escape_class :: string where
  "escape_class = [CHR ''&'', CHR ''<'', CHR ''>'', CHR 0x22, CHR 0x27]"

definition escape_table :: "(char \<times> string) list" where
  "escape_table =
     [(CHR ''&'', ''&amp;''), (CHR ''<'', ''&lt;''), (CHR ''>'', ''&gt;''),
      (CHR 0x22, ''&quot;''), (CHR 0x27, ''&#39;'')]"

definition replace_class :: "string \<Rightarrow> (char \<Rightarrow> string) \<Rightarrow> string \<Rightarrow> string" where
  "replace_class cls f s = concat (map (\<lambda>c. if c \<in> set cls then f c else [c]) s)"

definition escapeHtml :: "js_value \<Rightarrow> string" where
  "escapeHtml s =
     replace_class escape_class
       (\<lambda>c. case map_of escape_table c of Some e \<Rightarrow> e | None \<Rightarrow> ''undefined'')
       (js_String s)"

text \<open>\<open>attr n v\<close> is the attribute \<open>n\<close>, an equals sign and \<open>v\<close> between double quotes.\<close>

definition attr :: "string \<Rightarrow> string \<Rightarrow> string" where
  "attr n v = n @ ''='' @ [CHR 0x22] @ v @ [CHR 0x22]"

text \<open>
  The template literal of a card, with its four holes: the object URL (used twice), the
  \<open>alt\<close> text, the caption and the record's id.
\<close>

definition card_template :: "string \<Rightarrow> string \<Rightarrow> string \<Rightarrow> string \<Rightarrow> string" where
  "card_template imgURL alt caption data_id =
     ''\<newline>      <a '' @ attr ''href'' imgURL @ '' '' @ attr ''target'' ''_blank'' @ '' ''
       @ attr ''rel'' ''noopener noreferrer'' @ ''><img ''
       @ attr ''alt'' alt @ '' '' @ attr ''src'' imgURL @ ''></a>''
     @ ''\<newline>      <div '' @ attr ''class'' ''meta'' @ ''>''
     @ ''\<newline>        <div '' @ attr ''class'' ''meta-left'' @ ''>'' @ caption @ ''</div>''
     @ ''\<newline>        <div '' @ attr ''class'' ''meta-right'' @ ''>''
     @ ''\<newline>          <button '' @ attr ''class'' ''btn ghost'' @ '' ''
       @ attr ''data-id'' data_id @ ''>Delete</button>''
     @ ''\<newline>        </div>''
     @ ''\<newline>      </div>''
     @ ''\<newline>    ''"

definition card_innerHTML :: "string \<Rightarrow> image_record \<Rightarrow> string" where
  "card_innerHTML imgURL item =
     card_template imgURL
       (escapeHtml (js_or (name item) (Str ''photo'')))
       (escapeHtml (js_or (name item) (Str ''Untitled'')))
       (show_int (id_key item))"

definition preview_innerHTML :: "string \<Rightarrow> string" where
  "preview_innerHTML result =
     ''<img '' @ attr ''src'' result @ '' ''
     @ attr ''style''
         ''width:120px;height:80px;object-fit:cover;border-radius:8px;border:1px solid rgba(0,0,0,0.06)''
     @ ''/>''"

text \<open>The dash of the placeholder is U+2014, three bytes in UTF-8.\<close>

definition placeholder :: string where
  "placeholder =
     ''<p '' @ attr ''class'' ''muted small'' @ ''>No photos yet ''
     @ [CHR 0xE2, CHR 0x80, CHR 0x94] @ '' add some above.</p>''"

definition unavailable :: string where
  "unavailable =
     ''<p '' @ attr ''class'' ''muted'' @ ''>Browser storage is not available in this environment.</p>''"

text \<open>
  \<open>Array.prototype.sort\<close> with a comparator is a stable sort: \<open>x\<close> stays in front of
  \<open>y\<close> unless the comparator puts it behind. \<open>js_sort\<close> inserts from the right, so an
  element meets only elements that followed it in the array.
\<close>

fun js_insert :: "('a \<Rightarrow> 'a \<Rightarrow> int) \<Rightarrow> 'a \<Rightarrow> 'a list \<Rightarrow> 'a list" where
  "js_insert cmp x [] = [x]"
| "js_insert cmp x (y # ys) = (if cmp x y \<le> 0 then x # y # ys else y # js_insert cmp x ys)"

definition js_sort :: "('a \<Rightarrow> 'a \<Rightarrow> int) \<Rightarrow> 'a list \<Rightarrow> 'a list" where
  "js_sort cmp xs = foldr (js_insert cmp) xs []"

definition newest_first :: "image_record \<Rightarrow> image_record \<Rightarrow> int" where
  "newest_first a b = created b - created a"

text \<open>
  \<open>URL.createObjectURL\<close> returns a URL no earlier call returned; the model numbers
  them. The script never revokes one.
\<close>

definition createObjectURL :: "js_blob \<Rightarrow> session \<Rightarrow> string \<times> session" where
  "createObjectURL b s = (''blob:'' @ show_nat (objectURLs s), s\<lparr>objectURLs := Suc (objectURLs s)\<rparr>)"

definition appendCard :: "image_record \<Rightarrow> session \<Rightarrow> session" where
  "appendCard item s =
     (case createObjectURL (blob item) s of
        (imgURL, s1) \<Rightarrow>
          s1\<lparr>galleryGrid := galleryGrid s1 @ [CardItem (id_key item) (card_innerHTML imgURL item)]\<rparr>)"

fun render_items :: "image_record list \<Rightarrow> session \<Rightarrow> session" where
  "render_items [] s = s"
| "render_items (item # items) s = render_items items (appendCard item s)"

text \<open>
  \<open>refreshGallery\<close> is an async function whose promise no caller awaits: when
  \<open>getAllImages\<close> rejects, nothing is rendered and the page stays as it was.
\<close>

definition refreshGallery :: "js_error option \<Rightarrow> session \<Rightarrow> session" where
  "refreshGallery env s0 =
     (case getAllImages env s0 of
        (Inl e, s) \<Rightarrow> s
      | (Inr got, s) \<Rightarrow>
          (let items = js_sort newest_first got;
               s1 = s\<lparr>galleryGrid := []\<rparr>
           in if items = [] then s1\<lparr>galleryGrid := [Raw placeholder]\<rparr>
              else render_items items s1))"

section \<open>The controller\<close>

text \<open>
  What the browser supplies while one dropped file is handled: the reading of
  \<open>Date.now()\<close>, the fate of the add request, the data URL the \<open>FileReader\<close> loads (none
  when the read fails) and the fate of the \<open>getAll\<close> request of the refresh that a
  successful add triggers.

  \<open>forEach\<close> runs to completion before any callback: every add request is placed, in
  file order, before the first \<open>then\<close> callback runs, and IndexedDB runs the read-only
  transaction of a refresh after the read-write transactions created before it. So
  \<open>handleFiles\<close> performs the adds in file order, collecting the refreshes that the
  successful ones trigger, and runs the refreshes afterwards. A preview is appended
  when its read completes; it touches \<open>uploadPreview\<close> only, and the model appends it
  where its file is handled.
\<close>

record file_env =
  date_now :: int
  add_env :: "js_error option"
  reader_result :: "string option"
  refresh_env :: "js_error option"

definition show_preview :: "string option \<Rightarrow> session \<Rightarrow> session" where
  "show_preview r s =
     (case r of
        None \<Rightarrow> s
      | Some result \<Rightarrow> s\<lparr>uploadPreview := uploadPreview s @ [preview_innerHTML result]\<rparr>)"

definition handleFile ::
  "js_file \<times> file_env \<Rightarrow> session \<times> js_error option list \<Rightarrow> session \<times> js_error option list" where
  "handleFile fe acc =
     (case (fe, acc) of
        ((f, env), (s, pending)) \<Rightarrow>
          if \<not> startsWith (file_type f) ''image/'' then (s, pending)
          else
            (let s1 = show_preview (reader_result env) s;
                 b = slice f 0 (file_size f) (file_type f)
             in case addImageBlob (Str (file_name f)) b (date_now env) (add_env env) s1 of
                  (Inr k, s2) \<Rightarrow> (s2, pending @ [refresh_env env])
                | (Inl err, s2) \<Rightarrow> (s2\<lparr>console := console s2 @ [(''DB add error'', err)]\<rparr>, pending)))"

definition handleFiles :: "(js_file \<times> file_env) list \<Rightarrow> session \<Rightarrow> session" where
  "handleFiles files s =
     (case fold handleFile files (s, []) of
        (s1, pending) \<Rightarrow> fold refreshGallery pending (s1\<lparr>fileElem_value := []\<rparr>))"

text \<open>
  The click handlers. \<open>confirmed\<close> is the answer of \<open>confirm\<close>. When the awaited store
  call rejects, the handler ends there and \<open>refreshGallery\<close> is not reached.
\<close>

definition deleteClick :: "int \<Rightarrow> bool \<Rightarrow> js_error option \<Rightarrow> js_error option \<Rightarrow> session \<Rightarrow> session" where
  "deleteClick i confirmed del_env ref_env s =
     (if \<not> confirmed then s
      else case deleteImageById i del_env s of
             (Inl e, s1) \<Rightarrow> s1
           | (Inr u, s1) \<Rightarrow> refreshGallery ref_env s1)"

definition clearAllClick :: "bool \<Rightarrow> js_error option \<Rightarrow> js_error option \<Rightarrow> session \<Rightarrow> session" where
  "clearAllClick confirmed clear_env ref_env s =
     (if \<not> confirmed then s
      else case clearAllImages clear_env s of
             (Inl e, s1) \<Rightarrow> s1
           | (Inr u, s1) \<Rightarrow> refreshGallery ref_env s1)"

definition init :: "js_error option \<Rightarrow> js_error option \<Rightarrow> session \<Rightarrow> session" where
  "init open_env ref_env s =
     (case openDB open_env s of
        (Inr c, s1) \<Rightarrow> refreshGallery ref_env s1
      | (Inl e, s1) \<Rightarrow>
          s1\<lparr>console := console s1 @ [(''Failed to open DB'', e)],
             galleryGrid := [Raw unavailable]\<rparr>)"

text \<open>
  What a user can do after the page has loaded: drop files, choose files, click the
  delete button of a card that is in the gallery, click the clear-all button.
\<close>

datatype event =
  Drop "(js_file \<times> file_env) list"
| Change "(js_file \<times> file_env) list"
| DeleteButton int bool "js_error option" "js_error option"
| ClearAllButton bool "js_error option" "js_error option"

fun card_ids :: "node list \<Rightarrow> int list" where
  "card_ids [] = []"
| "card_ids (Raw m # ns) = card_ids ns"
| "card_ids (CardItem i m # ns) = i # card_ids ns"

fun dispatch :: "event \<Rightarrow> session \<Rightarrow> session" where
  "dispatch (Drop files) s = handleFiles files s"
| "dispatch (Change files) s = handleFiles files s"
| "dispatch (DeleteButton i confirmed del_env ref_env) s =
     (if i \<in> set (card_ids (galleryGrid s)) then deleteClick i confirmed del_env ref_env s else s)"
| "dispatch (ClearAllButton confirmed clear_env ref_env) s =
     clearAllClick confirmed clear_env ref_env s"

definition run_session :: "event list \<Rightarrow> session \<Rightarrow> session" where
  "run_session evs s = fold dispatch evs s"

section \<open>Invariants and auxiliary notions\<close>

text \<open>
  The ids of a store are in order when they are strictly increasing and below the key
  generator's current number. \<open>images_store\<close> finds the script's object store in the
  browser without going through a connection, and \<open>persisted\<close> is its content.
\<close>

definition store_inv :: "object_store \<Rightarrow> bool" where
  "store_inv st =
     (sorted_wrt (<) (map id_key (records st)) \<and> list_all (\<lambda>r. id_key r < keygen st) (records st))"

definition images_store :: "indexeddb \<Rightarrow> object_store option" where
  "images_store b =
     (case databases b DB_NAME of None \<Rightarrow> None | Some d \<Rightarrow> objectStores d STORE_NAME)"

definition persisted :: "session \<Rightarrow> image_record list" where
  "persisted s = (case images_store (idb s) of None \<Rightarrow> [] | Some st \<Rightarrow> records st)"

definition session_inv :: "session \<Rightarrow> bool" where
  "session_inv s =
     ((case db s of None \<Rightarrow> True | Some c \<Rightarrow> conn_db c = DB_NAME)
      \<and> (case images_store (idb s) of None \<Rightarrow> True | Some st \<Rightarrow> store_inv st))"

text \<open>
  \<open>stored_as k xs\<close> are the records that inserting \<open>xs\<close> produces when the key generator
  stands at \<open>k\<close>; \<open>insert_all\<close> runs the inserts, none of which the browser fails.
\<close>

fun stored_as :: "int \<Rightarrow> (js_value \<times> js_blob \<times> int) list \<Rightarrow> image_record list" where
  "stored_as k [] = []"
| "stored_as k ((nm, bl, cr) # xs) =
     \<lparr>id_key = k, name = nm, blob = bl, created = cr\<rparr> # stored_as (k + 1) xs"

fun insert_all ::
  "(js_value \<times> js_blob \<times> int) list \<Rightarrow> session \<Rightarrow> (js_error + int) list \<times> session" where
  "insert_all [] s = ([], s)"
| "insert_all ((nm, bl, now) # xs) s =
     (case addImageBlob nm bl now None s of
        (r, s') \<Rightarrow> (case insert_all xs s' of (rs, s'') \<Rightarrow> (r # rs, s'')))"

text \<open>A sequence of store operations, each with the fate the browser gives it.\<close>

datatype store_op =
  OpOpen "js_error option"
| OpInsert js_value js_blob int "js_error option"
| OpListAll "js_error option"
| OpDelete int "js_error option"
| OpClear "js_error option"

fun apply_op :: "store_op \<Rightarrow> session \<Rightarrow> session" where
  "apply_op (OpOpen env) s = snd (openDB env s)"
| "apply_op (OpInsert nm bl now env) s = snd (addImageBlob nm bl now env s)"
| "apply_op (OpListAll env) s = snd (getAllImages env s)"
| "apply_op (OpDelete i env) s = snd (deleteImageById i env s)"
| "apply_op (OpClear env) s = snd (clearAllImages env s)"

fun readings :: "store_op list \<Rightarrow> int list" where
  "readings [] = []"
| "readings (OpInsert nm bl now env # ops) = now # readings ops"
| "readings (op # ops) = readings ops"

text \<open>
  \<open>cards_from n items\<close> are the cards of \<open>items\<close> when the next object URL has number
  \<open>n\<close>. \<open>html_escaped\<close> is HTML escaping as usually stated: the five characters are
  replaced by their entities and every other character is kept.
\<close>

fun cards_from :: "nat \<Rightarrow> image_record list \<Rightarrow> node list" where
  "cards_from n [] = []"
| "cards_from n (item # items) =
     CardItem (id_key item) (card_innerHTML (''blob:'' @ show_nat n) item) # cards_from (Suc n) items"

definition markup_chars :: "char set" where
  "markup_chars = {CHR ''<'', CHR ''>'', CHR 0x22, CHR 0x27}"

definition escape_char :: "char \<Rightarrow> string" where
  "escape_char c = (if c \<in> set escape_class
       then (case map_of escape_table c of Some e \<Rightarrow> e | None \<Rightarrow> ''undefined'') else [c])"

fun html_escaped :: "string \<Rightarrow> string" where
  "html_escaped [] = []"
| "html_escaped (c # cs) =
     (if c = CHR ''&'' then ''&amp;''
      else if c = CHR ''<'' then ''&lt;''
      else if c = CHR ''>'' then ''&gt;''
      else if c = CHR 0x22 then ''&quot;''
      else if c = CHR 0x27 then ''&#39;''
      else [c]) @ html_escaped cs"

text \<open>
  What a session without a connection does on an event: \<open>offline_calls\<close> are the store
  functions it enters and \<open>offline_errors\<close> what it logs. Every image file of a drop or
  a choice enters \<open>addImageBlob\<close> once and logs its rejection; a confirmed click on
  clear-all enters \<open>clearAllImages\<close> once, and its rejection is not caught.

  \<open>offline s s' cs es\<close>: from \<open>s\<close> to \<open>s'\<close> no connection was set, the browser's
  databases and the gallery did not change, the store functions entered were \<open>cs\<close> and
  the errors logged were \<open>es\<close>.
\<close>

definition is_image :: "js_file \<times> file_env \<Rightarrow> bool" where
  "is_image fe = startsWith (file_type (fst fe)) ''image/''"

fun offline_calls :: "event \<Rightarrow> store_call list" where
  "offline_calls (Drop files) = map (\<lambda>fe. Insert) (filter is_image files)"
| "offline_calls (Change files) = map (\<lambda>fe. Insert) (filter is_image files)"
| "offline_calls (DeleteButton i confirmed del_env ref_env) = []"
| "offline_calls (ClearAllButton confirmed clear_env ref_env) = (if confirmed then [ClearAll] else [])"

fun offline_errors :: "event \<Rightarrow> (string \<times> js_error) list" where
  "offline_errors (Drop files) = map (\<lambda>fe. (''DB add error'', TypeError)) (filter is_image files)"
| "offline_errors (Change files) = map (\<lambda>fe. (''DB add error'', TypeError)) (filter is_image files)"
| "offline_errors (DeleteButton i confirmed del_env ref_env) = []"
| "offline_errors (ClearAllButton confirmed clear_env ref_env) = []"

definition offline ::
  "session \<Rightarrow> session \<Rightarrow> store_call list \<Rightarrow> (string \<times> js_error) list \<Rightarrow> bool" where
  "offline s s' cs es =
     (db s' = None \<and> idb s' = idb s \<and> galleryGrid s' = galleryGrid s
      \<and> calls s' = calls s @ cs \<and> console s' = console s @ es)"

text \<open>
  What a batch of files leaves behind on a session with a store: \<open>batch_records k files\<close>
  are the records of the image files whose add the browser lets through, in file
  order, numbered from \<open>k\<close>; \<open>batch_errors\<close> are the failures logged for the image files
  whose add the browser fails; \<open>batch_refreshes\<close> are the fates of the refreshes that the
  successful adds trigger.
\<close>

fun batch_records :: "int \<Rightarrow> (js_file \<times> file_env) list \<Rightarrow> image_record list" where
  "batch_records k [] = []"
| "batch_records k ((f, env) # files) =
     (if startsWith (file_type f) ''image/'' \<and> add_env env = None
      then \<lparr>id_key = k, name = Str (file_name f),
             blob = slice f 0 (file_size f) (file_type f), created = date_now env\<rparr>
           # batch_records (k + 1) files
      else batch_records k files)"

fun batch_errors :: "(js_file \<times> file_env) list \<Rightarrow> (string \<times> js_error) list" where
  "batch_errors [] = []"
| "batch_errors ((f, env) # files) =
     (if startsWith (file_type f) ''image/''
      then (case add_env env of
              None \<Rightarrow> batch_errors files
            | Some err \<Rightarrow> (''DB add error'', err) # batch_errors files)
      else batch_errors files)"

fun batch_refreshes :: "(js_file \<times> file_env) list \<Rightarrow> js_error option list" where
  "batch_refreshes [] = []"
| "batch_refreshes ((f, env) # files) =
     (if startsWith (file_type f) ''image/'' \<and> add_env env = None
      then refresh_env env # batch_refreshes files
      else batch_refreshes files)"

section \<open>Example states\<close>

text \<open>
  A browser without databases, the state of the script when the page has loaded, the
  state after the first successful \<open>openDB\<close>, and a session whose store holds three
  records.
\<close>

definition no_storage :: indexeddb where
  "no_storage = \<lparr>databases = Map.empty, connections = 0\<rparr>"

definition page_load :: "indexeddb \<Rightarrow> session" where
  "page_load b =
     \<lparr>idb = b, db = None, galleryGrid = [], uploadPreview = [], console = [],
      fileElem_value = [], objectURLs = 0, calls = []\<rparr>"

definition first_open :: session where
  "first_open = snd (openDB None (page_load no_storage))"

definition example_records :: "image_record list" where
  "example_records =
     [\<lparr>id_key = 1, name = Str ''<script>.png'', blob = \<lparr>bytes = [1], ctype = ''image/png''\<rparr>, created = 100\<rparr>,
      \<lparr>id_key = 2, name = Str [], blob = \<lparr>bytes = [2], ctype = ''image/png''\<rparr>, created = 300\<rparr>,
      \<lparr>id_key = 3, name = Str ''c.gif'', blob = \<lparr>bytes = [3], ctype = ''image/gif''\<rparr>, created = 200\<rparr>]"

definition example_store :: object_store where
  "example_store = \<lparr>records = example_records, keygen = 4\<rparr>"

definition example_session :: session where
  "example_session =
     \<lparr>idb = \<lparr>databases = [DB_NAME \<mapsto> \<lparr>version = DB_VERSION,
                                         objectStores = [STORE_NAME \<mapsto> example_store]\<rparr>],
             connections = 1\<rparr>,
      db = Some \<lparr>conn_id = 0, conn_db = DB_NAME\<rparr>,
      galleryGrid = [], uploadPreview = [], console = [], fileElem_value = [],
      objectURLs = 0, calls = [Initialize]\<rparr>"

definition png :: "string \<Rightarrow> js_file" where
  "png n = \<lparr>file_name = n, file_type = ''image/png'', file_bytes = [137, 80, 78, 71]\<rparr>"

definition textfile :: "string \<Rightarrow> js_file" where
  "textfile n = \<lparr>file_name = n, file_type = ''text/plain'', file_bytes = [104, 105]\<rparr>"

definition all_well :: "int \<Rightarrow> file_env" where
  "all_well t = \<lparr>date_now = t, add_env = None, reader_result = Some ''data:image/png;base64,iVBORw=='',
                 refresh_env = None\<rparr>"

section \<open>Facts about the store functions\<close>

lemma objectStore_enter [simp]: "objectStore (enter c s) = objectStore s"
  by (simp add: objectStore_def enter_def split: option.splits)

lemma idb_enter [simp]: "idb (enter c s) = idb s"
  by (simp add: enter_def)

lemma db_enter [simp]: "db (enter c s) = db s"
  by (simp add: enter_def)

lemma console_enter [simp]: "console (enter c s) = console s"
  by (simp add: enter_def)

lemma objectStore_commit:
  "objectStore s = Inr st0 \<Longrightarrow> objectStore (commit st s) = Inr st"
  by (auto simp: objectStore_def commit_def split: option.splits)

lemma commit_same:
  "objectStore s = Inr st \<Longrightarrow> idb (commit st s) = idb s"
  by (auto simp: objectStore_def commit_def map_upd_triv split: option.splits)

lemma console_commit [simp]: "console (commit st s) = console s"
  by (simp add: commit_def split: option.splits)

lemma objectStore_no_db: "db s = None \<Longrightarrow> objectStore s = Inl TypeError"
  by (simp add: objectStore_def)

lemma getAllImages_ok:
  "objectStore s = Inr st \<Longrightarrow> getAllImages None s = (Inr (records st), enter ListAll s)"
  by (simp add: getAllImages_def Let_def store_getAll_def)

lemma deleteImageById_ok:
  "objectStore s = Inr st \<Longrightarrow>
     deleteImageById i None s = (Inr (), commit (store_delete i st) (enter DeleteById s))"
  by (simp add: deleteImageById_def Let_def)

lemma insort_key_last:
  "list_all (\<lambda>r. f r < f x) xs \<Longrightarrow> insort_key f x xs = xs @ [x]"
  by (induction xs) auto

lemma store_add_inv:
  assumes "store_inv st"
  shows "store_add nm bl cr st =
     Inr (keygen st, \<lparr>records = records st @ [\<lparr>id_key = keygen st, name = nm, blob = bl, created = cr\<rparr>],
                     keygen = keygen st + 1\<rparr>)"
proof -
  have a: "list_all (\<lambda>r. id_key r < keygen st) (records st)"
    using assms by (simp add: store_inv_def)
  then have "keygen st \<notin> set (map id_key (records st))"
    by (auto simp: list_all_iff)
  moreover have "insort_key id_key \<lparr>id_key = keygen st, name = nm, blob = bl, created = cr\<rparr> (records st)
      = records st @ [\<lparr>id_key = keygen st, name = nm, blob = bl, created = cr\<rparr>]"
    using a by (intro insort_key_last) simp
  ultimately show ?thesis by (simp add: store_add_def Let_def)
qed

lemma store_inv_add:
  assumes "store_inv st"
  shows "store_inv \<lparr>records = records st @ [\<lparr>id_key = keygen st, name = nm, blob = bl, created = cr\<rparr>],
                     keygen = keygen st + 1\<rparr>"
  using assms
  by (auto simp: store_inv_def sorted_wrt_append list_all_iff intro: less_trans)

lemma store_inv_delete: "store_inv st \<Longrightarrow> store_inv (store_delete i st)"
  by (auto simp: store_inv_def store_delete_def list_all_iff sorted_wrt_map intro: sorted_wrt_filter)

lemma store_inv_clear: "store_inv (store_clear st)"
  by (simp add: store_inv_def store_clear_def)

lemma store_inv_distinct: "store_inv st \<Longrightarrow> distinct (map id_key (records st))"
  unfolding store_inv_def using strict_sorted_iff[of "map id_key (records st)"] by blast

lemma addImageBlob_ok:
  assumes "objectStore s = Inr st" "store_inv st"
  shows "addImageBlob nm bl now None s =
     (Inr (keygen st),
      commit \<lparr>records = records st @ [\<lparr>id_key = keygen st, name = nm, blob = bl, created = now\<rparr>],
               keygen = keygen st + 1\<rparr> (enter Insert s))"
  using assms by (simp add: addImageBlob_def Let_def store_add_inv)

lemma objectStore_example: "objectStore example_session = Inr example_store"
  by (simp add: objectStore_def example_session_def)

lemma example_records_ne: "records example_store \<noteq> []"
  by (simp add: example_store_def example_records_def)

lemma first_open_result:
  "openDB None (page_load no_storage) = (Inr \<lparr>conn_id = 0, conn_db = DB_NAME\<rparr>, first_open)"
  by (simp add: first_open_def openDB_def idb_open_def Let_def page_load_def no_storage_def enter_def)

lemma objectStore_first_open: "objectStore first_open = Inr \<lparr>records = [], keygen = 1\<rparr>"
  by (simp add: first_open_def openDB_def idb_open_def Let_def page_load_def no_storage_def
        enter_def objectStore_def upgradeneeded_def)

section \<open>Inserting and listing\<close>

lemma insert_all_store:
  "objectStore s = Inr st \<Longrightarrow> store_inv st \<Longrightarrow> insert_all ins s = (rs, s') \<Longrightarrow>
     objectStore s' = Inr \<lparr>records = records st @ stored_as (keygen st) ins,
                           keygen = keygen st + int (length ins)\<rparr>
     \<and> rs = map (\<lambda>r. Inr (id_key r)) (stored_as (keygen st) ins)"
proof (induction ins arbitrary: s st rs)
  case Nil
  then show ?case by simp
next
  case (Cons x xs)
  obtain nm bl now where x: "x = (nm, bl, now)" by (cases x)
  let ?st1 = "\<lparr>records = records st @ [\<lparr>id_key = keygen st, name = nm, blob = bl, created = now\<rparr>],
               keygen = keygen st + 1\<rparr>"
  let ?s1 = "commit ?st1 (enter Insert s)"
  have add: "addImageBlob nm bl now None s = (Inr (keygen st), ?s1)"
    using Cons.prems(1,2) by (rule addImageBlob_ok)
  obtain rs1 where rest: "insert_all xs ?s1 = (rs1, s')" and rs: "rs = Inr (keygen st) # rs1"
    using Cons.prems(3) by (auto simp: x add split: prod.splits)
  have os: "objectStore ?s1 = Inr ?st1"
    by (rule objectStore_commit[where ?st0.0 = st]) (simp add: Cons.prems(1))
  have inv: "store_inv ?st1" using Cons.prems(2) by (rule store_inv_add)
  from Cons.IH[OF os inv rest] show ?case
    by (simp add: x rs)
qed

lemma stored_as_fields: "map (\<lambda>r. (name r, blob r, created r)) (stored_as k ins) = ins"
  by (induction k ins rule: stored_as.induct) auto

lemma stored_as_ids_ge: "r \<in> set (stored_as k ins) \<Longrightarrow> k \<le> id_key r"
  by (induction k ins arbitrary: r rule: stored_as.induct) fastforce+

lemma stored_as_distinct: "distinct (map id_key (stored_as k ins))"
  by (induction k ins rule: stored_as.induct) (auto dest: stored_as_ids_ge)

text \<open>
  Claim C1. Take a session whose connection reaches an empty \<open>images\<close> store and run any
  sequence of inserts that the browser lets through. Every insert then succeeds, and
  \<open>getAllImages\<close> returns one record per insert, in insertion order, with the inserted
  name, blob and created value; the ids of the returned records are pairwise distinct
  and are the ids the inserts resolved with.
\<close>

theorem insert_then_listAll:
  assumes "objectStore s = Inr st" and "records st = []" and "insert_all ins s = (rs, s')"
  shows "\<exists>recs. fst (getAllImages None s') = Inr recs
           \<and> map (\<lambda>r. (name r, blob r, created r)) recs = ins
           \<and> distinct (map id_key recs)
           \<and> rs = map (\<lambda>r. Inr (id_key r)) recs"
proof -
  have inv: "store_inv st" using assms(2) by (simp add: store_inv_def)
  from insert_all_store[OF assms(1) inv assms(3)]
  have os: "objectStore s' = Inr \<lparr>records = stored_as (keygen st) ins,
                           keygen = keygen st + int (length ins)\<rparr>"
    and rs: "rs = map (\<lambda>r. Inr (id_key r)) (stored_as (keygen st) ins)"
    using assms(2) by simp_all
  show ?thesis
    using rs by (simp add: getAllImages_ok[OF os] stored_as_fields stored_as_distinct)
qed

theorem insert_then_listAll_witness:
  "objectStore first_open = Inr \<lparr>records = [], keygen = 1\<rparr>
   \<and> records \<lparr>records = [], keygen = 1\<rparr> = []
   \<and> (\<exists>recs. fst (getAllImages None (snd (insert_all
          [(Str ''a.png'', \<lparr>bytes = [1], ctype = ''image/png''\<rparr>, 100),
           (Str ''a.png'', \<lparr>bytes = [1], ctype = ''image/png''\<rparr>, 100)] first_open))) = Inr recs
        \<and> map (\<lambda>r. (name r, blob r, created r)) recs =
            [(Str ''a.png'', \<lparr>bytes = [1], ctype = ''image/png''\<rparr>, 100),
             (Str ''a.png'', \<lparr>bytes = [1], ctype = ''image/png''\<rparr>, 100)]
        \<and> distinct (map id_key recs)
        \<and> fst (insert_all
          [(Str ''a.png'', \<lparr>bytes = [1], ctype = ''image/png''\<rparr>, 100),
           (Str ''a.png'', \<lparr>bytes = [1], ctype = ''image/png''\<rparr>, 100)] first_open)
           = map (\<lambda>r. Inr (id_key r)) recs)"
proof -
  have h2: "records \<lparr>records = [], keygen = 1\<rparr> = []" by simp
  show ?thesis
    using insert_then_listAll[OF objectStore_first_open h2 surjective_pairing] objectStore_first_open h2
    by blast
qed

section \<open>Deleting and clearing\<close>

lemma store_delete_absent:
  "i \<notin> set (map id_key (records st)) \<Longrightarrow> store_delete i st = st"
proof -
  assume "i \<notin> set (map id_key (records st))"
  then have "filter (\<lambda>r. id_key r \<noteq> i) (records st) = records st"
    by (intro filter_True) auto
  then show ?thesis by (simp add: store_delete_def)
qed

text \<open>
  Claim C2. \<open>deleteImageById i\<close> on a reachable store succeeds; afterwards the store holds
  the records it held before whose id is not \<open>i\<close>, unchanged and in the same order, and
  the key generator is unchanged. When no record has id \<open>i\<close> the call still succeeds and
  the browser's databases are exactly what they were.
\<close>

theorem deleteById_frame:
  assumes "objectStore s = Inr st" and "deleteImageById i None s = (r, s')"
  shows "r = Inr ()
      \<and> objectStore s' = Inr \<lparr>records = filter (\<lambda>x. id_key x \<noteq> i) (records st), keygen = keygen st\<rparr>
      \<and> (i \<notin> set (map id_key (records st)) \<longrightarrow> idb s' = idb s)"
proof -
  have eq: "r = Inr ()" "s' = commit (store_delete i st) (enter DeleteById s)"
    using assms by (simp_all add: deleteImageById_ok)
  have os: "objectStore (enter DeleteById s) = Inr st" using assms(1) by simp
  have a: "objectStore s' = Inr (store_delete i st)"
    unfolding eq by (rule objectStore_commit[OF os])
  have b: "idb s' = idb s" if "i \<notin> set (map id_key (records st))"
    unfolding eq using commit_same[OF os] store_delete_absent[OF that] by simp
  show ?thesis using eq(1) a b by (simp add: store_delete_def)
qed

theorem deleteById_frame_witness:
  "objectStore example_session = Inr example_store
   \<and> fst (deleteImageById 2 None example_session) = Inr ()
   \<and> objectStore (snd (deleteImageById 2 None example_session))
        = Inr \<lparr>records = [example_records ! 0, example_records ! 2], keygen = 4\<rparr>
   \<and> 7 \<notin> set (map id_key (records example_store))
   \<and> fst (deleteImageById 7 None example_session) = Inr ()
   \<and> idb (snd (deleteImageById 7 None example_session)) = idb example_session"
proof -
  have h: "7 \<notin> set (map id_key (records example_store))"
    by (simp add: example_store_def example_records_def)
  have f: "filter (\<lambda>x. id_key x \<noteq> 2) (records example_store)
      = [example_records ! 0, example_records ! 2]" "keygen example_store = 4"
    by (simp_all add: example_store_def example_records_def)
  show ?thesis
    using deleteById_frame[OF objectStore_example surjective_pairing, of 2]
      deleteById_frame[OF objectStore_example surjective_pairing, of 7]
      objectStore_example h
    by (simp add: f)
qed

lemma clearAllImages_Inr:
  assumes "clearAllImages env s = (Inr u, s1)"
  shows "\<exists>st. objectStore s1 = Inr st \<and> records st = []"
proof (cases "objectStore s")
  case (Inl e)
  then show ?thesis using assms by (simp add: clearAllImages_def Let_def)
next
  case (Inr st)
  then have os: "objectStore (enter ClearAll s) = Inr st" by simp
  from Inr assms have "s1 = commit (store_clear st) (enter ClearAll s)"
    by (simp add: clearAllImages_def Let_def split: option.splits)
  then have "objectStore s1 = Inr (store_clear st)"
    using objectStore_commit[OF os] by simp
  then show ?thesis by (simp add: store_clear_def)
qed

text \<open>
  Claim C8. After a \<open>clearAllImages\<close> that succeeded, \<open>getAllImages\<close> returns the empty
  list; and \<open>getAllImages\<close> on a store without records returns the empty list, not an
  error.
\<close>

theorem clearAll_then_listAll:
  "(clearAllImages env s = (Inr u, s1) \<longrightarrow> fst (getAllImages None s1) = Inr [])
   \<and> (objectStore s2 = Inr st \<and> records st = [] \<longrightarrow> fst (getAllImages None s2) = Inr [])"
  using clearAllImages_Inr[of env s u s1] by (auto simp: getAllImages_ok)

theorem clearAll_then_listAll_witness:
  "clearAllImages None example_session = (Inr (), snd (clearAllImages None example_session))
   \<and> fst (getAllImages None (snd (clearAllImages None example_session))) = Inr []
   \<and> objectStore first_open = Inr \<lparr>records = [], keygen = 1\<rparr>
   \<and> fst (getAllImages None first_open) = Inr []"
proof -
  have h1: "clearAllImages None example_session = (Inr (), snd (clearAllImages None example_session))"
    by (simp add: clearAllImages_def Let_def objectStore_example)
  have h2: "records \<lparr>records = [], keygen = 1\<rparr> = []" by simp
  show ?thesis
    using clearAll_then_listAll[of None example_session "()" "snd (clearAllImages None example_session)"
        first_open "\<lparr>records = [], keygen = 1\<rparr>"]
      h1 h2 objectStore_first_open
    by blast
qed

section \<open>Sorting and rendering\<close>

lemma mset_js_insert: "mset (js_insert cmp x xs) = add_mset x (mset xs)"
  by (induction xs) auto

lemma mset_js_sort: "mset (js_sort cmp xs) = mset xs"
  by (induction xs) (auto simp: js_sort_def mset_js_insert)

lemma set_js_insert: "set (js_insert cmp x xs) = insert x (set xs)"
  by (induction xs) auto

lemma length_js_sort: "length (js_sort cmp xs) = length xs"
  using mset_js_sort[of cmp xs] by (metis size_mset)

lemma js_sort_Nil_iff: "js_sort cmp xs = [] \<longleftrightarrow> xs = []"
  using mset_js_sort[of cmp xs] by (metis mset_zero_iff)

lemma newest_first_insert:
  "sorted_wrt (\<lambda>a b. created b \<le> created a) xs \<Longrightarrow>
     sorted_wrt (\<lambda>a b. created b \<le> created a) (js_insert newest_first x xs)"
  by (induction xs) (auto simp: set_js_insert newest_first_def)

lemma newest_first_sort: "sorted_wrt (\<lambda>a b. created b \<le> created a) (js_sort newest_first xs)"
proof (induction xs)
  case Nil
  show ?case by (simp add: js_sort_def)
next
  case (Cons x xs)
  then show ?case using newest_first_insert[of "js_sort newest_first xs" x] by (simp add: js_sort_def)
qed

lemma sort_example:
  assumes "map created xs = [100, 300, 200]"
  shows "map created (js_sort newest_first xs) = [300, 200, 100]"
proof -
  obtain a b c where xs: "xs = [a, b, c]" and c: "created a = 100" "created b = 300" "created c = 200"
    using assms by (auto simp: map_eq_Cons_conv)
  show ?thesis by (simp add: xs js_sort_def newest_first_def c)
qed

lemma galleryGrid_appendCard:
  "galleryGrid (appendCard item s) =
     galleryGrid s @ [CardItem (id_key item) (card_innerHTML (''blob:'' @ show_nat (objectURLs s)) item)]"
  by (simp add: appendCard_def createObjectURL_def)

lemma objectURLs_appendCard: "objectURLs (appendCard item s) = Suc (objectURLs s)"
  by (simp add: appendCard_def createObjectURL_def)

lemma galleryGrid_render_items:
  "galleryGrid (render_items items s) = galleryGrid s @ cards_from (objectURLs s) items"
  by (induction items arbitrary: s) (simp_all add: galleryGrid_appendCard objectURLs_appendCard)

lemma cards_from_nth:
  "i < length items \<Longrightarrow>
     cards_from n items ! i =
       CardItem (id_key (items ! i)) (card_innerHTML (''blob:'' @ show_nat (n + i)) (items ! i))"
proof (induction items arbitrary: n i)
  case Nil
  then show ?case by simp
next
  case (Cons x xs)
  then show ?case by (cases i) simp_all
qed

lemma refreshGallery_ok:
  assumes "objectStore s = Inr st"
  shows "refreshGallery None s =
     (if js_sort newest_first (records st) = [] then (enter ListAll s)\<lparr>galleryGrid := [Raw placeholder]\<rparr>
      else render_items (js_sort newest_first (records st)) ((enter ListAll s)\<lparr>galleryGrid := []\<rparr>))"
  by (simp add: refreshGallery_def getAllImages_ok[OF assms] Let_def)

lemma galleryGrid_refresh:
  assumes "objectStore s = Inr st" "records st \<noteq> []"
  shows "galleryGrid (refreshGallery None s) = cards_from (objectURLs s) (js_sort newest_first (records st))"
  using assms(2)
  by (simp add: refreshGallery_ok[OF assms(1)] js_sort_Nil_iff galleryGrid_render_items enter_def)

text \<open>
  Claim C3. \<open>refreshGallery\<close> on a store with records fills the gallery with one card
  per record, in an order that is a rearrangement of the records returned by
  \<open>getAllImages\<close> with \<open>created\<close> descending. Records created at 100, 300, 200 are
  rendered in the order 300, 200, 100.
\<close>

theorem refresh_newest_first:
  assumes "objectStore s = Inr st" and "records st \<noteq> []"
  shows "\<exists>items. galleryGrid (refreshGallery None s) = cards_from (objectURLs s) items
           \<and> mset items = mset (records st)
           \<and> sorted_wrt (\<lambda>a b. created b \<le> created a) items
           \<and> (map created (records st) = [100, 300, 200] \<longrightarrow> map created items = [300, 200, 100])"
proof (intro exI[of _ "js_sort newest_first (records st)"] conjI impI)
  show "galleryGrid (refreshGallery None s) = cards_from (objectURLs s) (js_sort newest_first (records st))"
    by (rule galleryGrid_refresh[OF assms])
  show "mset (js_sort newest_first (records st)) = mset (records st)"
    by (rule mset_js_sort)
  show "sorted_wrt (\<lambda>a b. created b \<le> created a) (js_sort newest_first (records st))"
    by (rule newest_first_sort)
  show "map created (js_sort newest_first (records st)) = [300, 200, 100]"
    if "map created (records st) = [100, 300, 200]"
    using that by (rule sort_example)
qed

theorem refresh_newest_first_witness:
  "objectStore example_session = Inr example_store \<and> records example_store \<noteq> []
   \<and> (\<exists>items. galleryGrid (refreshGallery None example_session) = cards_from (objectURLs example_session) items
           \<and> mset items = mset (records example_store)
           \<and> sorted_wrt (\<lambda>a b. created b \<le> created a) items
           \<and> map created items = [300, 200, 100])"
proof -
  have c: "map created (records example_store) = [100, 300, 200]"
    by (simp add: example_store_def example_records_def)
  show ?thesis
    using refresh_newest_first[OF objectStore_example example_records_ne] c
      objectStore_example example_records_ne
    by auto
qed

section \<open>Escaping\<close>

lemma escape_char_no_markup: "set (escape_char c) \<inter> markup_chars = {}"
  by (auto simp: escape_char_def escape_class_def escape_table_def markup_chars_def)

lemma escapeHtml_no_markup: "set (escapeHtml v) \<inter> markup_chars = {}"
proof -
  have "escapeHtml v = concat (map escape_char (js_String v))"
    by (simp add: escapeHtml_def replace_class_def escape_char_def[abs_def])
  then show ?thesis using escape_char_no_markup by auto
qed

lemma filter_escapeHtml: "filter (\<lambda>c. c \<in> markup_chars) (escapeHtml v) = []"
  using escapeHtml_no_markup[of v] by (auto simp: filter_empty_conv)

lemma escape_script: "escapeHtml (Str ''<script>'') = ''&lt;script&gt;''"
  by (simp add: escapeHtml_def replace_class_def escape_class_def escape_table_def)

lemma filter_Cons_app: "filter P (x # xs) = (if P x then [x] else []) @ filter P xs"
  by simp

lemma card_markup_indep:
  "filter (\<lambda>c. c \<in> markup_chars) (card_innerHTML u (item\<lparr>name := n1\<rparr>))
     = filter (\<lambda>c. c \<in> markup_chars) (card_innerHTML u (item\<lparr>name := n2\<rparr>))"
  by (simp add: card_innerHTML_def card_template_def attr_def filter_escapeHtml filter_Cons_app
        del: filter.simps(2))

lemma escapeHtml_Str: "escapeHtml (Str s) = html_escaped s"
  by (induction s) (simp_all add: escapeHtml_def replace_class_def escape_class_def escape_table_def)

lemma markup_chars_explicit: "markup_chars = {CHR ''<'', CHR ''>'', CHR 0x22, CHR 0x27}"
  by (simp add: markup_chars_def)

lemma card_innerHTML_explicit:
  "card_innerHTML u item =
    ''\<newline>      <a href='' @ [CHR 0x22] @ u @ [CHR 0x22] @ '' target=''
    @ [CHR 0x22] @ ''_blank'' @ [CHR 0x22] @ '' rel='' @ [CHR 0x22]
    @ ''noopener noreferrer'' @ [CHR 0x22] @ ''><img alt='' @ [CHR 0x22]
    @ escapeHtml (js_or (name item) (Str ''photo'')) @ [CHR 0x22] @ '' src=''
    @ [CHR 0x22] @ u @ [CHR 0x22] @ ''></a>''
    @ ''\<newline>      <div class='' @ [CHR 0x22] @ ''meta'' @ [CHR 0x22] @ ''>''
    @ ''\<newline>        <div class='' @ [CHR 0x22] @ ''meta-left'' @ [CHR 0x22]
    @ ''>'' @ escapeHtml (js_or (name item) (Str ''Untitled'')) @ ''</div>''
    @ ''\<newline>        <div class='' @ [CHR 0x22] @ ''meta-right'' @ [CHR 0x22]
    @ ''>''
    @ ''\<newline>          <button class='' @ [CHR 0x22] @ ''btn ghost'' @ [CHR 0x22]
    @ '' data-id='' @ [CHR 0x22] @ show_int (id_key item) @ [CHR 0x22]
    @ ''>Delete</button>''
    @ ''\<newline>        </div>''
    @ ''\<newline>      </div>''
    @ ''\<newline>    ''"
  by (simp add: card_innerHTML_def card_template_def attr_def)

text \<open>
  Claim C4. The markup of a card is spelled out. For a record with a non-empty filename
  the \<open>alt\<close> attribute, between its double quotes, and the text of the caption element
  are \<open>escapeHtml\<close> of the name, which is its HTML-escaped form; the card at position
  \<open>i\<close> of the gallery is built this way from the record at position \<open>i\<close>. The result of
  \<open>escapeHtml\<close> contains none of the characters \<open><\<close>, \<open>>\<close>, double quote and apostrophe, so
  the markup-significant characters of a card are the same whatever the name is;
  \<open><script>\<close> is rendered as \<open>&lt;script&gt;\<close>.
\<close>

theorem filename_is_escaped:
  "(name item = Str nm \<and> nm \<noteq> [] \<longrightarrow>
      card_innerHTML u item =
        ''\<newline>      <a href='' @ [CHR 0x22] @ u @ [CHR 0x22] @ '' target=''
        @ [CHR 0x22] @ ''_blank'' @ [CHR 0x22] @ '' rel='' @ [CHR 0x22]
        @ ''noopener noreferrer'' @ [CHR 0x22] @ ''><img alt='' @ [CHR 0x22]
        @ escapeHtml (Str nm) @ [CHR 0x22] @ '' src='' @ [CHR 0x22] @ u @ [CHR 0x22]
        @ ''></a>''
        @ ''\<newline>      <div class='' @ [CHR 0x22] @ ''meta'' @ [CHR 0x22] @ ''>''
        @ ''\<newline>        <div class='' @ [CHR 0x22] @ ''meta-left'' @ [CHR 0x22]
        @ ''>'' @ escapeHtml (Str nm) @ ''</div>''
        @ ''\<newline>        <div class='' @ [CHR 0x22] @ ''meta-right'' @ [CHR 0x22]
        @ ''>''
        @ ''\<newline>          <button class='' @ [CHR 0x22] @ ''btn ghost'' @ [CHR 0x22]
        @ '' data-id='' @ [CHR 0x22] @ show_int (id_key item) @ [CHR 0x22]
        @ ''>Delete</button>''
        @ ''\<newline>        </div>''
        @ ''\<newline>      </div>''
        @ ''\<newline>    '')
   \<and> (objectStore s = Inr st \<and> i < length (records st) \<longrightarrow>
        galleryGrid (refreshGallery None s) ! i =
          CardItem (id_key (js_sort newest_first (records st) ! i))
            (card_innerHTML (''blob:'' @ show_nat (objectURLs s + i)) (js_sort newest_first (records st) ! i)))
   \<and> escapeHtml (Str nm) = html_escaped nm
   \<and> set (escapeHtml v) \<inter> {CHR ''<'', CHR ''>'', CHR 0x22, CHR 0x27} = {}
   \<and> filter (\<lambda>c. c \<in> {CHR ''<'', CHR ''>'', CHR 0x22, CHR 0x27}) (card_innerHTML u (item\<lparr>name := v\<rparr>))
       = filter (\<lambda>c. c \<in> {CHR ''<'', CHR ''>'', CHR 0x22, CHR 0x27}) (card_innerHTML u (item\<lparr>name := Undefined\<rparr>))
   \<and> escapeHtml (Str ''<script>'') = ''&lt;script&gt;''"
proof (intro conjI impI)
  show "card_innerHTML u item =
        ''\<newline>      <a href='' @ [CHR 0x22] @ u @ [CHR 0x22] @ '' target=''
        @ [CHR 0x22] @ ''_blank'' @ [CHR 0x22] @ '' rel='' @ [CHR 0x22]
        @ ''noopener noreferrer'' @ [CHR 0x22] @ ''><img alt='' @ [CHR 0x22]
        @ escapeHtml (Str nm) @ [CHR 0x22] @ '' src='' @ [CHR 0x22] @ u @ [CHR 0x22]
        @ ''></a>''
        @ ''\<newline>      <div class='' @ [CHR 0x22] @ ''meta'' @ [CHR 0x22] @ ''>''
        @ ''\<newline>        <div class='' @ [CHR 0x22] @ ''meta-left'' @ [CHR 0x22]
        @ ''>'' @ escapeHtml (Str nm) @ ''</div>''
        @ ''\<newline>        <div class='' @ [CHR 0x22] @ ''meta-right'' @ [CHR 0x22]
        @ ''>''
        @ ''\<newline>          <button class='' @ [CHR 0x22] @ ''btn ghost'' @ [CHR 0x22]
        @ '' data-id='' @ [CHR 0x22] @ show_int (id_key item) @ [CHR 0x22]
        @ ''>Delete</button>''
        @ ''\<newline>        </div>''
        @ ''\<newline>      </div>''
        @ ''\<newline>    ''"
    if "name item = Str nm \<and> nm \<noteq> []"
    using that by (simp add: card_innerHTML_explicit js_or_def)
  show "galleryGrid (refreshGallery None s) ! i =
          CardItem (id_key (js_sort newest_first (records st) ! i))
            (card_innerHTML (''blob:'' @ show_nat (objectURLs s + i)) (js_sort newest_first (records st) ! i))"
    if h: "objectStore s = Inr st \<and> i < length (records st)"
  proof -
    have ne: "records st \<noteq> []" using h by auto
    have i: "i < length (js_sort newest_first (records st))" using h by (simp add: length_js_sort)
    show ?thesis
      using h by (simp add: galleryGrid_refresh[OF _ ne] cards_from_nth[OF i])
  qed
  show "escapeHtml (Str nm) = html_escaped nm" by (rule escapeHtml_Str)
  show "set (escapeHtml v) \<inter> {CHR ''<'', CHR ''>'', CHR 0x22, CHR 0x27} = {}"
    using escapeHtml_no_markup[of v] by (simp add: markup_chars_explicit)
  show "filter (\<lambda>c. c \<in> {CHR ''<'', CHR ''>'', CHR 0x22, CHR 0x27}) (card_innerHTML u (item\<lparr>name := v\<rparr>))
       = filter (\<lambda>c. c \<in> {CHR ''<'', CHR ''>'', CHR 0x22, CHR 0x27}) (card_innerHTML u (item\<lparr>name := Undefined\<rparr>))"
    using card_markup_indep[where u = u and item = item and ?n1.0 = v and ?n2.0 = Undefined]
    unfolding markup_chars_explicit .
  show "escapeHtml (Str ''<script>'') = ''&lt;script&gt;''" by (rule escape_script)
qed

theorem filename_is_escaped_witness:
  "objectStore example_session = Inr example_store \<and> 2 < length (records example_store)
   \<and> name (js_sort newest_first (records example_store) ! 2) = Str ''<script>.png''
   \<and> ''<script>.png'' \<noteq> []
   \<and> galleryGrid (refreshGallery None example_session) ! 2 =
        CardItem 1
          (''\<newline>      <a href='' @ [CHR 0x22] @ ''blob:2'' @ [CHR 0x22] @ '' target=''
          @ [CHR 0x22] @ ''_blank'' @ [CHR 0x22] @ '' rel='' @ [CHR 0x22]
          @ ''noopener noreferrer'' @ [CHR 0x22] @ ''><img alt='' @ [CHR 0x22]
          @ ''&lt;script&gt;.png'' @ [CHR 0x22] @ '' src='' @ [CHR 0x22] @ ''blob:2''
          @ [CHR 0x22] @ ''></a>''
          @ ''\<newline>      <div class='' @ [CHR 0x22] @ ''meta'' @ [CHR 0x22] @ ''>''
          @ ''\<newline>        <div class='' @ [CHR 0x22] @ ''meta-left'' @ [CHR 0x22]
          @ ''>&lt;script&gt;.png</div>''
          @ ''\<newline>        <div class='' @ [CHR 0x22] @ ''meta-right'' @ [CHR 0x22]
          @ ''>''
          @ ''\<newline>          <button class='' @ [CHR 0x22] @ ''btn ghost'' @ [CHR 0x22]
          @ '' data-id='' @ [CHR 0x22] @ ''1'' @ [CHR 0x22] @ ''>Delete</button>''
          @ ''\<newline>        </div>''
          @ ''\<newline>      </div>''
          @ ''\<newline>    '')
   \<and> set ''&lt;script&gt;.png'' \<inter> {CHR ''<'', CHR ''>'', CHR 0x22, CHR 0x27} = {}"
proof -
  have h2: "2 < length (records example_store)"
    by (simp add: example_store_def example_records_def)
  have srt: "js_sort newest_first (records example_store) ! 2 = example_records ! 0"
    by (simp add: example_store_def example_records_def js_sort_def newest_first_def)
  have nm: "name (example_records ! 0) = Str ''<script>.png''" "id_key (example_records ! 0) = 1"
    by (simp_all add: example_records_def)
  have u: "objectURLs example_session = 0" by (simp add: example_session_def)
  have n: "show_nat (Suc (Suc 0)) = ''2''" "show_int 1 = ''1''"
    by (simp_all add: show_int_def show_nat.simps)
  have e: "escapeHtml (Str ''<script>.png'') = ''&lt;script&gt;.png''"
    by (simp add: escapeHtml_Str)
  note t = filename_is_escaped[of "example_records ! 0" "''<script>.png''" "''blob:2''"
      example_session example_store 2 "Str ''<script>.png''"]
  have card: "card_innerHTML ''blob:2'' (example_records ! 0) =
          ''\<newline>      <a href='' @ [CHR 0x22] @ ''blob:2'' @ [CHR 0x22] @ '' target=''
          @ [CHR 0x22] @ ''_blank'' @ [CHR 0x22] @ '' rel='' @ [CHR 0x22]
          @ ''noopener noreferrer'' @ [CHR 0x22] @ ''><img alt='' @ [CHR 0x22]
          @ ''&lt;script&gt;.png'' @ [CHR 0x22] @ '' src='' @ [CHR 0x22] @ ''blob:2''
          @ [CHR 0x22] @ ''></a>''
          @ ''\<newline>      <div class='' @ [CHR 0x22] @ ''meta'' @ [CHR 0x22] @ ''>''
          @ ''\<newline>        <div class='' @ [CHR 0x22] @ ''meta-left'' @ [CHR 0x22]
          @ ''>&lt;script&gt;.png</div>''
          @ ''\<newline>        <div class='' @ [CHR 0x22] @ ''meta-right'' @ [CHR 0x22]
          @ ''>''
          @ ''\<newline>          <button class='' @ [CHR 0x22] @ ''btn ghost'' @ [CHR 0x22]
          @ '' data-id='' @ [CHR 0x22] @ ''1'' @ [CHR 0x22] @ ''>Delete</button>''
          @ ''\<newline>        </div>''
          @ ''\<newline>      </div>''
          @ ''\<newline>    ''"
    using t[THEN conjunct1] nm by (simp add: e n)
  have g: "galleryGrid (refreshGallery None example_session) ! 2 =
      CardItem 1 (card_innerHTML ''blob:2'' (example_records ! 0))"
    using t[THEN conjunct2, THEN conjunct1] objectStore_example h2 by (simp add: srt nm u n)
  have s: "set ''&lt;script&gt;.png'' \<inter> {CHR ''<'', CHR ''>'', CHR 0x22, CHR 0x27} = {}"
    using t[THEN conjunct2, THEN conjunct2, THEN conjunct2, THEN conjunct1] e by simp
  show ?thesis
    using objectStore_example h2 g s unfolding card by (simp add: srt nm)
qed

lemma card_innerHTML_fallback:
  assumes "name item \<in> {Undefined, Null, Str []}"
  shows "card_innerHTML u item =
    ''\<newline>      <a href='' @ [CHR 0x22] @ u @ [CHR 0x22] @ '' target=''
    @ [CHR 0x22] @ ''_blank'' @ [CHR 0x22] @ '' rel='' @ [CHR 0x22]
    @ ''noopener noreferrer'' @ [CHR 0x22] @ ''><img alt='' @ [CHR 0x22] @ ''photo''
    @ [CHR 0x22] @ '' src='' @ [CHR 0x22] @ u @ [CHR 0x22] @ ''></a>''
    @ ''\<newline>      <div class='' @ [CHR 0x22] @ ''meta'' @ [CHR 0x22] @ ''>''
    @ ''\<newline>        <div class='' @ [CHR 0x22] @ ''meta-left'' @ [CHR 0x22]
    @ ''>Untitled</div>''
    @ ''\<newline>        <div class='' @ [CHR 0x22] @ ''meta-right'' @ [CHR 0x22]
    @ ''>''
    @ ''\<newline>          <button class='' @ [CHR 0x22] @ ''btn ghost'' @ [CHR 0x22]
    @ '' data-id='' @ [CHR 0x22] @ show_int (id_key item) @ [CHR 0x22]
    @ ''>Delete</button>''
    @ ''\<newline>        </div>''
    @ ''\<newline>      </div>''
    @ ''\<newline>    ''"
proof -
  have "\<not> truthy (name item)" using assms by auto
  then have "js_or (name item) d = d" for d by (simp add: js_or_def)
  then show ?thesis
    by (simp add: card_innerHTML_explicit escapeHtml_Str)
qed

text \<open>
  Claim C10. When the record rendered at position \<open>i\<close> has a name that is undefined,
  null or the empty string, the markup of its card has \<open>photo\<close> between the quotes of
  the \<open>alt\<close> attribute and \<open>Untitled\<close> as the text of the caption element.
\<close>

theorem fallback_alt_and_caption:
  assumes "objectStore s = Inr st" and "i < length (records st)"
    and "name (js_sort newest_first (records st) ! i) \<in> {Undefined, Null, Str []}"
  shows "galleryGrid (refreshGallery None s) ! i =
           CardItem (id_key (js_sort newest_first (records st) ! i))
             (''\<newline>      <a href='' @ [CHR 0x22] @ ''blob:'' @ show_nat (objectURLs s + i)
             @ [CHR 0x22] @ '' target='' @ [CHR 0x22] @ ''_blank'' @ [CHR 0x22] @ '' rel=''
             @ [CHR 0x22] @ ''noopener noreferrer'' @ [CHR 0x22] @ ''><img alt='' @ [CHR 0x22]
             @ ''photo'' @ [CHR 0x22] @ '' src='' @ [CHR 0x22]
             @ ''blob:'' @ show_nat (objectURLs s + i) @ [CHR 0x22] @ ''></a>''
             @ ''\<newline>      <div class='' @ [CHR 0x22] @ ''meta'' @ [CHR 0x22] @ ''>''
             @ ''\<newline>        <div class='' @ [CHR 0x22] @ ''meta-left'' @ [CHR 0x22]
             @ ''>Untitled</div>''
             @ ''\<newline>        <div class='' @ [CHR 0x22] @ ''meta-right'' @ [CHR 0x22]
             @ ''>''
             @ ''\<newline>          <button class='' @ [CHR 0x22] @ ''btn ghost'' @ [CHR 0x22]
             @ '' data-id='' @ [CHR 0x22]
             @ show_int (id_key (js_sort newest_first (records st) ! i)) @ [CHR 0x22]
             @ ''>Delete</button>''
             @ ''\<newline>        </div>''
             @ ''\<newline>      </div>''
             @ ''\<newline>    '')"
proof -
  have ne: "records st \<noteq> []" using assms(2) by auto
  have i: "i < length (js_sort newest_first (records st))"
    using assms(2) by (simp add: length_js_sort)
  show ?thesis
    by (simp add: galleryGrid_refresh[OF assms(1) ne] cards_from_nth[OF i]
          card_innerHTML_fallback[OF assms(3)])
qed

theorem fallback_alt_and_caption_witness:
  "objectStore example_session = Inr example_store \<and> 0 < length (records example_store)
   \<and> name (js_sort newest_first (records example_store) ! 0) \<in> {Undefined, Null, Str []}
   \<and> galleryGrid (refreshGallery None example_session) ! 0 =
        CardItem 2
          (''\<newline>      <a href='' @ [CHR 0x22] @ ''blob:0'' @ [CHR 0x22] @ '' target=''
          @ [CHR 0x22] @ ''_blank'' @ [CHR 0x22] @ '' rel='' @ [CHR 0x22]
          @ ''noopener noreferrer'' @ [CHR 0x22] @ ''><img alt='' @ [CHR 0x22] @ ''photo''
          @ [CHR 0x22] @ '' src='' @ [CHR 0x22] @ ''blob:0'' @ [CHR 0x22] @ ''></a>''
          @ ''\<newline>      <div class='' @ [CHR 0x22] @ ''meta'' @ [CHR 0x22] @ ''>''
          @ ''\<newline>        <div class='' @ [CHR 0x22] @ ''meta-left'' @ [CHR 0x22]
          @ ''>Untitled</div>''
          @ ''\<newline>        <div class='' @ [CHR 0x22] @ ''meta-right'' @ [CHR 0x22]
          @ ''>''
          @ ''\<newline>          <button class='' @ [CHR 0x22] @ ''btn ghost'' @ [CHR 0x22]
          @ '' data-id='' @ [CHR 0x22] @ ''2'' @ [CHR 0x22] @ ''>Delete</button>''
          @ ''\<newline>        </div>''
          @ ''\<newline>      </div>''
          @ ''\<newline>    '')"
proof -
  have h2: "0 < length (records example_store)"
    by (simp add: example_store_def example_records_def)
  have srt: "js_sort newest_first (records example_store) ! 0 = example_records ! 1"
    by (simp add: example_store_def example_records_def js_sort_def newest_first_def)
  have h3: "name (js_sort newest_first (records example_store) ! 0) \<in> {Undefined, Null, Str []}"
    unfolding srt by (simp add: example_records_def)
  have u: "objectURLs example_session = 0" by (simp add: example_session_def)
  have n: "show_nat 0 = ''0''" "show_int 2 = ''2''" by (simp_all add: show_int_def show_nat.simps)
  have k: "id_key (example_records ! Suc 0) = 2" by (simp add: example_records_def)
  show ?thesis
    using fallback_alt_and_caption[OF objectStore_example h2 h3] objectStore_example h2 h3
    by (simp add: srt u n k)
qed

section \<open>Opening the database twice\<close>

lemma version_upgradeneeded [simp]: "version (upgradeneeded d) = version d"
  by (simp add: upgradeneeded_def split: option.splits)

lemma idb_open_result:
  assumes "idb_open nm v up b = Inr (c, b1)" and "\<And>d. version (up d) = version d"
  shows "c = \<lparr>conn_id = connections b, conn_db = nm\<rparr>"
    and "connections b1 = Suc (connections b)"
    and "\<exists>d. databases b1 nm = Some d \<and> version d = v"
  using assms by (auto simp: idb_open_def Let_def split: option.splits if_splits)

lemma idb_open_current:
  assumes "databases b nm = Some d" and "version d = v"
  shows "idb_open nm v up b =
           Inr (\<lparr>conn_id = connections b, conn_db = nm\<rparr>, b\<lparr>connections := Suc (connections b)\<rparr>)"
  using assms by (simp add: idb_open_def Let_def)

lemma openDB_Inr:
  assumes "openDB env s = (Inr c, s1)"
  shows "idb_open DB_NAME DB_VERSION upgradeneeded (idb s) = Inr (c, idb s1)"
    and "s1 = (enter Initialize s)\<lparr>idb := idb s1, db := Some c\<rparr>"
  using assms by (auto simp: openDB_def Let_def split: option.splits sum.splits)

lemma openDB_Inl:
  assumes "fst (openDB env s) = Inl e"
  shows "snd (openDB env s) = enter Initialize s"
  using assms by (auto simp: openDB_def Let_def split: option.splits sum.splits)

text \<open>
  Claim C5, as the code has it. \<open>openDB\<close> keeps no record of having run: a second call
  after a successful one asks the browser for the database again. It succeeds, returns
  a connection to the same database that is not the one returned before, and rebinds
  \<open>db\<close> to it. The databases, their object stores and the records are what they were:
  no second database or collection is created and no record is duplicated.
\<close>

theorem openDB_twice:
  assumes "openDB None s = (Inr c, s1)"
  shows "openDB None s1 =
           (Inr \<lparr>conn_id = Suc (conn_id c), conn_db = conn_db c\<rparr>,
            (enter Initialize s1)\<lparr>idb := (idb s1)\<lparr>connections := Suc (connections (idb s1))\<rparr>,
                                   db := Some \<lparr>conn_id = Suc (conn_id c), conn_db = conn_db c\<rparr>\<rparr>)
         \<and> databases (idb (snd (openDB None s1))) = databases (idb s1)
         \<and> fst (openDB None s1) \<noteq> Inr c"
proof -
  note o = openDB_Inr[OF assms]
  have c: "c = \<lparr>conn_id = connections (idb s), conn_db = DB_NAME\<rparr>"
    and n: "connections (idb s1) = Suc (connections (idb s))"
    using idb_open_result(1,2)[OF o(1)] by simp_all
  obtain d where d: "databases (idb s1) DB_NAME = Some d" "version d = DB_VERSION"
    using idb_open_result(3)[OF o(1)] by auto
  have "idb_open DB_NAME DB_VERSION upgradeneeded (idb (enter Initialize s1)) =
          Inr (\<lparr>conn_id = connections (idb s1), conn_db = DB_NAME\<rparr>,
               (idb s1)\<lparr>connections := Suc (connections (idb s1))\<rparr>)"
    using idb_open_current[OF d] by simp
  then have 1: "openDB None s1 =
           (Inr \<lparr>conn_id = Suc (conn_id c), conn_db = conn_db c\<rparr>,
            (enter Initialize s1)\<lparr>idb := (idb s1)\<lparr>connections := Suc (connections (idb s1))\<rparr>,
                                   db := Some \<lparr>conn_id = Suc (conn_id c), conn_db = conn_db c\<rparr>\<rparr>)"
    by (simp add: openDB_def Let_def c n)
  show ?thesis
    unfolding 1 by (simp add: c)
qed

theorem openDB_twice_witness:
  "openDB None (page_load no_storage) = (Inr \<lparr>conn_id = 0, conn_db = DB_NAME\<rparr>, first_open)
   \<and> fst (openDB None first_open) = Inr \<lparr>conn_id = 1, conn_db = DB_NAME\<rparr>
   \<and> databases (idb (snd (openDB None first_open))) = databases (idb first_open)
   \<and> fst (openDB None first_open) \<noteq> Inr \<lparr>conn_id = 0, conn_db = DB_NAME\<rparr>"
  using openDB_twice[OF first_open_result] first_open_result
  by simp

text \<open>
  Claim C5 as stated does not hold: on a browser without databases the second \<open>openDB\<close>
  does not return the handle of the first.
\<close>

theorem openDB_twice_new_handle:
  "fst (openDB None (snd (openDB None (page_load no_storage))))
     \<noteq> fst (openDB None (page_load no_storage))"
  by (simp add: openDB_def idb_open_def Let_def page_load_def no_storage_def enter_def
        upgradeneeded_def DB_NAME_def DB_VERSION_def STORE_NAME_def)

section \<open>Unique ids and the order of created\<close>

lemma objectStore_images:
  assumes "session_inv s" "objectStore s = Inr st"
  shows "images_store (idb s) = Some st"
  using assms
  by (auto simp: session_inv_def objectStore_def images_store_def split: option.splits)

lemma session_inv_enter [simp]: "session_inv (enter c s) = session_inv s"
  by (simp add: session_inv_def enter_def)

lemma persisted_enter [simp]: "persisted (enter c s) = persisted s"
  by (simp add: persisted_def)

lemma images_commit:
  assumes "session_inv s" "objectStore s = Inr st0"
  shows "images_store (idb (commit st s)) = Some st" and "db (commit st s) = db s"
  using assms
  by (auto simp: session_inv_def objectStore_def images_store_def commit_def split: option.splits)

lemma session_inv_commit:
  assumes "session_inv s" "objectStore s = Inr st0" "store_inv st"
  shows "session_inv (commit st s)" and "persisted (commit st s) = records st"
  using images_commit[OF assms(1,2), of st] assms(1,3)
  by (simp_all add: session_inv_def persisted_def)

lemma persisted_objectStore:
  assumes "session_inv s" "objectStore s = Inr st"
  shows "persisted s = records st" and "store_inv st"
  using objectStore_images[OF assms] assms(1) by (simp_all add: persisted_def session_inv_def)

lemma images_store_open:
  assumes "idb_open DB_NAME DB_VERSION upgradeneeded b = Inr (c, b1)"
  shows "images_store b1 = images_store b
       \<or> (images_store b = None \<and> images_store b1 = Some \<lparr>records = [], keygen = 1\<rparr>)"
  using assms
  by (auto simp: idb_open_def Let_def images_store_def upgradeneeded_def
           split: option.splits if_splits)

lemma openDB_inv:
  assumes "session_inv s"
  shows "session_inv (snd (openDB env s))" and "persisted (snd (openDB env s)) = persisted s"
proof -
  show "session_inv (snd (openDB env s))"
  proof (cases "openDB env s")
    case (Pair r s1)
    show ?thesis
    proof (cases r)
      case (Inl e)
      with Pair have "s1 = enter Initialize s"
        by (auto simp: openDB_def Let_def split: option.splits sum.splits)
      with Pair assms show ?thesis by simp
    next
      case (Inr c)
      note o = openDB_Inr[OF Pair[unfolded Inr]]
      have "conn_db c = DB_NAME" using idb_open_result(1)[OF o(1)] by simp
      moreover have "db s1 = Some c" by (subst o(2)) simp
      ultimately show ?thesis
        using assms images_store_open[OF o(1)] Pair
        by (auto simp: session_inv_def store_inv_def split: option.splits)
    qed
  qed
  show "persisted (snd (openDB env s)) = persisted s"
  proof (cases "openDB env s")
    case (Pair r s1)
    show ?thesis
    proof (cases r)
      case (Inl e)
      with Pair have "s1 = enter Initialize s"
        by (auto simp: openDB_def Let_def split: option.splits sum.splits)
      with Pair show ?thesis by simp
    next
      case (Inr c)
      note o = openDB_Inr[OF Pair[unfolded Inr]]
      show ?thesis
        using images_store_open[OF o(1)] Pair
        by (auto simp: persisted_def split: option.splits)
    qed
  qed
qed

lemma insert_effect:
  assumes "session_inv s"
  shows "session_inv (snd (addImageBlob nm bl now env s))
       \<and> (persisted (snd (addImageBlob nm bl now env s)) = persisted s
          \<or> (\<exists>k. persisted (snd (addImageBlob nm bl now env s))
                 = persisted s @ [\<lparr>id_key = k, name = nm, blob = bl, created = now\<rparr>]))"
proof (cases "objectStore s")
  case (Inl e)
  then show ?thesis using assms by (simp add: addImageBlob_def Let_def)
next
  case (Inr st)
  note st = persisted_objectStore[OF assms Inr]
  show ?thesis
  proof (cases env)
    case (Some e)
    then show ?thesis using assms Inr by (simp add: addImageBlob_def Let_def)
  next
    case None
    have os: "objectStore (enter Insert s) = Inr st" using Inr by simp
    have si: "session_inv (enter Insert s)" using assms by simp
    show ?thesis
      unfolding None addImageBlob_ok[OF Inr st(2)]
      using session_inv_commit[OF si os store_inv_add[OF st(2)]] st(1) by auto
  qed
qed

lemma delete_effect:
  assumes "session_inv s"
  shows "session_inv (snd (deleteImageById i env s))
       \<and> (persisted (snd (deleteImageById i env s)) = persisted s
          \<or> persisted (snd (deleteImageById i env s)) = filter (\<lambda>r. id_key r \<noteq> i) (persisted s))"
proof (cases "objectStore s")
  case (Inl e)
  then show ?thesis using assms by (simp add: deleteImageById_def Let_def)
next
  case (Inr st)
  note st = persisted_objectStore[OF assms Inr]
  show ?thesis
  proof (cases env)
    case (Some e)
    then show ?thesis using assms Inr by (simp add: deleteImageById_def Let_def)
  next
    case None
    have os: "objectStore (enter DeleteById s) = Inr st" using Inr by simp
    have si: "session_inv (enter DeleteById s)" using assms by simp
    show ?thesis
      unfolding None deleteImageById_ok[OF Inr]
      using session_inv_commit[OF si os store_inv_delete[OF st(2)]] st(1)
      by (simp add: store_delete_def)
  qed
qed

lemma clear_effect:
  assumes "session_inv s"
  shows "session_inv (snd (clearAllImages env s))
       \<and> (persisted (snd (clearAllImages env s)) = persisted s
          \<or> persisted (snd (clearAllImages env s)) = [])"
proof (cases "objectStore s")
  case (Inl e)
  then show ?thesis using assms by (simp add: clearAllImages_def Let_def)
next
  case (Inr st)
  show ?thesis
  proof (cases env)
    case (Some e)
    then show ?thesis using assms Inr by (simp add: clearAllImages_def Let_def)
  next
    case None
    have os: "objectStore (enter ClearAll s) = Inr st" using Inr by simp
    have si: "session_inv (enter ClearAll s)" using assms by simp
    have "snd (clearAllImages None s) = commit (store_clear st) (enter ClearAll s)"
      using Inr by (simp add: clearAllImages_def Let_def)
    then show ?thesis
      unfolding None
      using session_inv_commit[OF si os store_inv_clear[of st]]
      by (simp add: store_clear_def)
  qed
qed

lemma listAll_effect:
  "snd (getAllImages env s) = enter ListAll s"
  by (simp add: getAllImages_def Let_def split: sum.splits option.splits)

lemma sorted_drop_mid: "sorted (xs @ y # ys) \<Longrightarrow> sorted (xs @ (ys :: int list))"
  by (auto simp: sorted_append)

lemma sorted_filter_front:
  "sorted (map created xs @ ys) \<Longrightarrow> sorted (map created (filter P xs) @ ys)"
  by (auto simp: sorted_append intro: sorted_filter)

lemma apply_op_step:
  assumes "session_inv s" and "sorted (map created (persisted s) @ readings (op # ops))"
  shows "session_inv (apply_op op s)"
    and "sorted (map created (persisted (apply_op op s)) @ readings ops)"
proof -
  show "session_inv (apply_op op s)"
    using assms(1) insert_effect delete_effect clear_effect openDB_inv(1)
    by (cases op) (simp_all add: listAll_effect)
  show "sorted (map created (persisted (apply_op op s)) @ readings ops)"
  proof (cases op)
    case (OpOpen env)
    then show ?thesis using assms openDB_inv(2) by simp
  next
    case (OpInsert nm bl now env)
    then show ?thesis
      using assms(2) insert_effect[OF assms(1), of nm bl now env] sorted_drop_mid
      by auto
  next
    case (OpListAll env)
    then show ?thesis using assms(2) by (simp add: listAll_effect)
  next
    case (OpDelete i env)
    then show ?thesis
      using assms(2) delete_effect[OF assms(1), of i env] sorted_filter_front
      by auto
  next
    case (OpClear env)
    have "sorted (readings ops)" using assms(2) OpClear by (simp add: sorted_append)
    then show ?thesis
      using assms(2) clear_effect[OF assms(1), of env] OpClear by auto
  qed
qed

lemma fold_apply_op:
  "session_inv s \<Longrightarrow> sorted (map created (persisted s) @ readings ops) \<Longrightarrow>
     session_inv (fold apply_op ops s) \<and> sorted (map created (persisted (fold apply_op ops s)))"
proof (induction ops arbitrary: s)
  case Nil
  then show ?case by simp
next
  case (Cons op ops)
  from apply_op_step[OF Cons.prems] Cons.IH show ?case by simp
qed

lemma apply_op_inv: "session_inv s \<Longrightarrow> session_inv (apply_op op s)"
  using insert_effect delete_effect clear_effect openDB_inv(1)
  by (cases op) (simp_all add: listAll_effect)

lemma fold_apply_op_inv: "session_inv s \<Longrightarrow> session_inv (fold apply_op ops s)"
  by (induction ops arbitrary: s) (simp_all add: apply_op_inv)

lemma session_inv_distinct: "session_inv s \<Longrightarrow> distinct (map id_key (persisted s))"
  by (auto simp: session_inv_def persisted_def split: option.splits dest: store_inv_distinct)

text \<open>
  Claim C9, as the code has it. Starting from a session whose stored ids are strictly
  increasing and below the key generator (a page load on any such browser state), after
  every sequence of store operations, failing or not, the persisted records have
  pairwise distinct ids. \<open>created\<close> is the reading of \<open>Date.now()\<close> stored as it is, so
  the records are in non-decreasing \<open>created\<close> order whenever the readings taken by the
  inserts are non-decreasing and not below the values already stored.
\<close>

theorem unique_ids_and_created_order:
  assumes "session_inv s"
  shows "distinct (map id_key (persisted (fold apply_op ops s)))
       \<and> (sorted (map created (persisted s) @ readings ops)
            \<longrightarrow> sorted (map created (persisted (fold apply_op ops s))))"
  using session_inv_distinct[OF fold_apply_op_inv[OF assms]] fold_apply_op[OF assms]
  by simp

theorem unique_ids_and_created_order_witness:
  "session_inv (page_load no_storage)
   \<and> sorted (map created (persisted (page_load no_storage)) @ readings
        [OpOpen None,
         OpInsert (Str ''a.png'') \<lparr>bytes = [1], ctype = ''image/png''\<rparr> 100 None,
         OpInsert (Str ''b.png'') \<lparr>bytes = [2], ctype = ''image/png''\<rparr> 100
           (Some (RequestError ''QuotaExceededError'')),
         OpInsert (Str ''c.png'') \<lparr>bytes = [3], ctype = ''image/png''\<rparr> 250 None,
         OpInsert (Str ''d.png'') \<lparr>bytes = [4], ctype = ''image/png''\<rparr> 250 None,
         OpDelete 2 None,
         OpListAll None,
         OpOpen None,
         OpInsert (Str ''e.png'') \<lparr>bytes = [5], ctype = ''image/png''\<rparr> 400 None])
   \<and> map (\<lambda>r. (id_key r, created r)) (persisted (fold apply_op
        [OpOpen None,
         OpInsert (Str ''a.png'') \<lparr>bytes = [1], ctype = ''image/png''\<rparr> 100 None,
         OpInsert (Str ''b.png'') \<lparr>bytes = [2], ctype = ''image/png''\<rparr> 100
           (Some (RequestError ''QuotaExceededError'')),
         OpInsert (Str ''c.png'') \<lparr>bytes = [3], ctype = ''image/png''\<rparr> 250 None,
         OpInsert (Str ''d.png'') \<lparr>bytes = [4], ctype = ''image/png''\<rparr> 250 None,
         OpDelete 2 None,
         OpListAll None,
         OpOpen None,
         OpInsert (Str ''e.png'') \<lparr>bytes = [5], ctype = ''image/png''\<rparr> 400 None] (page_load no_storage))) = [(1, 100), (3, 250), (4, 400)]
   \<and> distinct (map id_key (persisted (fold apply_op
        [OpOpen None,
         OpInsert (Str ''a.png'') \<lparr>bytes = [1], ctype = ''image/png''\<rparr> 100 None,
         OpInsert (Str ''b.png'') \<lparr>bytes = [2], ctype = ''image/png''\<rparr> 100
           (Some (RequestError ''QuotaExceededError'')),
         OpInsert (Str ''c.png'') \<lparr>bytes = [3], ctype = ''image/png''\<rparr> 250 None,
         OpInsert (Str ''d.png'') \<lparr>bytes = [4], ctype = ''image/png''\<rparr> 250 None,
         OpDelete 2 None,
         OpListAll None,
         OpOpen None,
         OpInsert (Str ''e.png'') \<lparr>bytes = [5], ctype = ''image/png''\<rparr> 400 None] (page_load no_storage))))
   \<and> sorted (map created (persisted (fold apply_op
        [OpOpen None,
         OpInsert (Str ''a.png'') \<lparr>bytes = [1], ctype = ''image/png''\<rparr> 100 None,
         OpInsert (Str ''b.png'') \<lparr>bytes = [2], ctype = ''image/png''\<rparr> 100
           (Some (RequestError ''QuotaExceededError'')),
         OpInsert (Str ''c.png'') \<lparr>bytes = [3], ctype = ''image/png''\<rparr> 250 None,
         OpInsert (Str ''d.png'') \<lparr>bytes = [4], ctype = ''image/png''\<rparr> 250 None,
         OpDelete 2 None,
         OpListAll None,
         OpOpen None,
         OpInsert (Str ''e.png'') \<lparr>bytes = [5], ctype = ''image/png''\<rparr> 400 None] (page_load no_storage))))"
proof -
  have h1: "session_inv (page_load no_storage)"
    by (simp add: session_inv_def page_load_def no_storage_def images_store_def)
  have h2: "sorted (map created (persisted (page_load no_storage)) @ readings
        [OpOpen None,
         OpInsert (Str ''a.png'') \<lparr>bytes = [1], ctype = ''image/png''\<rparr> 100 None,
         OpInsert (Str ''b.png'') \<lparr>bytes = [2], ctype = ''image/png''\<rparr> 100
           (Some (RequestError ''QuotaExceededError'')),
         OpInsert (Str ''c.png'') \<lparr>bytes = [3], ctype = ''image/png''\<rparr> 250 None,
         OpInsert (Str ''d.png'') \<lparr>bytes = [4], ctype = ''image/png''\<rparr> 250 None,
         OpDelete 2 None,
         OpListAll None,
         OpOpen None,
         OpInsert (Str ''e.png'') \<lparr>bytes = [5], ctype = ''image/png''\<rparr> 400 None])"
    by (simp add: persisted_def page_load_def no_storage_def images_store_def)
  have c: "map (\<lambda>r. (id_key r, created r)) (persisted (fold apply_op
        [OpOpen None,
         OpInsert (Str ''a.png'') \<lparr>bytes = [1], ctype = ''image/png''\<rparr> 100 None,
         OpInsert (Str ''b.png'') \<lparr>bytes = [2], ctype = ''image/png''\<rparr> 100
           (Some (RequestError ''QuotaExceededError'')),
         OpInsert (Str ''c.png'') \<lparr>bytes = [3], ctype = ''image/png''\<rparr> 250 None,
         OpInsert (Str ''d.png'') \<lparr>bytes = [4], ctype = ''image/png''\<rparr> 250 None,
         OpDelete 2 None,
         OpListAll None,
         OpOpen None,
         OpInsert (Str ''e.png'') \<lparr>bytes = [5], ctype = ''image/png''\<rparr> 400 None] (page_load no_storage))) = [(1, 100), (3, 250), (4, 400)]"
    by (simp add: openDB_def idb_open_def Let_def page_load_def no_storage_def enter_def
        upgradeneeded_def DB_NAME_def DB_VERSION_def STORE_NAME_def addImageBlob_def
        deleteImageById_def getAllImages_def store_delete_def
        objectStore_def store_add_def commit_def persisted_def images_store_def)
  show ?thesis
    using unique_ids_and_created_order[OF h1, of "[OpOpen None,
         OpInsert (Str ''a.png'') \<lparr>bytes = [1], ctype = ''image/png''\<rparr> 100 None,
         OpInsert (Str ''b.png'') \<lparr>bytes = [2], ctype = ''image/png''\<rparr> 100
           (Some (RequestError ''QuotaExceededError'')),
         OpInsert (Str ''c.png'') \<lparr>bytes = [3], ctype = ''image/png''\<rparr> 250 None,
         OpInsert (Str ''d.png'') \<lparr>bytes = [4], ctype = ''image/png''\<rparr> 250 None,
         OpDelete 2 None,
         OpListAll None,
         OpOpen None,
         OpInsert (Str ''e.png'') \<lparr>bytes = [5], ctype = ''image/png''\<rparr> 400 None]"] h1 h2 c by blast
qed

text \<open>
  Claim C9 as stated does not hold: when the clock is set back between two inserts, the
  later record has the smaller \<open>created\<close>.
\<close>

theorem created_order_counterexample:
  "\<not> sorted (map created (persisted (fold apply_op
        [OpOpen None,
         OpInsert (Str ''a.png'') \<lparr>bytes = [1], ctype = ''image/png''\<rparr> 200 None,
         OpInsert (Str ''b.png'') \<lparr>bytes = [2], ctype = ''image/png''\<rparr> 100 None]
        (page_load no_storage))))"
  by (simp add: openDB_def idb_open_def Let_def page_load_def no_storage_def enter_def
        upgradeneeded_def DB_NAME_def DB_VERSION_def STORE_NAME_def addImageBlob_def
        objectStore_def store_add_def commit_def persisted_def images_store_def)

section \<open>A session without storage\<close>

lemma offline_refl: "db s = None \<Longrightarrow> offline s s [] []"
  by (simp add: offline_def)

lemma offline_trans:
  "offline s s1 cs es \<Longrightarrow> offline s1 s2 cs' es' \<Longrightarrow> offline s s2 (cs @ cs') (es @ es')"
  by (simp add: offline_def)

lemma handleFile_no_db:
  assumes "db s = None"
  shows "\<exists>s'. handleFile fe (s, p) = (s', p)
           \<and> offline s s' (map (\<lambda>fe. Insert) (filter is_image [fe]))
                (map (\<lambda>fe. (''DB add error'', TypeError)) (filter is_image [fe]))"
proof -
  obtain f env where fe: "fe = (f, env)" by (cases fe)
  let ?s1 = "show_preview (reader_result env) s"
  have s1: "db ?s1 = None" "idb ?s1 = idb s" "galleryGrid ?s1 = galleryGrid s" "calls ?s1 = calls s"
    "console ?s1 = console s"
    using assms by (simp_all add: show_preview_def split: option.splits)
  have add: "addImageBlob nm bl now e ?s1 = (Inl TypeError, enter Insert ?s1)" for nm bl now e
    using s1(1) by (simp add: addImageBlob_def Let_def objectStore_no_db)
  show ?thesis
    using assms s1
    by (simp add: fe handleFile_def Let_def add offline_def enter_def is_image_def)
qed

lemma fold_handleFile_no_db:
  "db s = None \<Longrightarrow>
     \<exists>s'. fold handleFile files (s, []) = (s', [])
        \<and> offline s s' (map (\<lambda>fe. Insert) (filter is_image files))
             (map (\<lambda>fe. (''DB add error'', TypeError)) (filter is_image files))"
proof (induction files arbitrary: s)
  case Nil
  then show ?case by (simp add: offline_refl)
next
  case (Cons fe files)
  obtain s1 where 1: "handleFile fe (s, []) = (s1, [])"
      "offline s s1 (map (\<lambda>fe. Insert) (filter is_image [fe]))
         (map (\<lambda>fe. (''DB add error'', TypeError)) (filter is_image [fe]))"
    using handleFile_no_db[OF Cons.prems] by blast
  then have "db s1 = None" by (simp add: offline_def)
  from Cons.IH[OF this] obtain s2 where 2: "fold handleFile files (s1, []) = (s2, [])"
      "offline s1 s2 (map (\<lambda>fe. Insert) (filter is_image files))
         (map (\<lambda>fe. (''DB add error'', TypeError)) (filter is_image files))"
    by blast
  have "offline s s2 (map (\<lambda>fe. Insert) (filter is_image (fe # files)))
          (map (\<lambda>fe. (''DB add error'', TypeError)) (filter is_image (fe # files)))"
    using offline_trans[OF 1(2) 2(2)] by (cases "is_image fe") simp_all
  then show ?case using 1(1) 2(1) by simp
qed

lemma handleFiles_no_db:
  assumes "db s = None"
  shows "offline s (handleFiles files s) (map (\<lambda>fe. Insert) (filter is_image files))
           (map (\<lambda>fe. (''DB add error'', TypeError)) (filter is_image files))"
proof -
  obtain s1 where 1: "fold handleFile files (s, []) = (s1, [])"
      "offline s s1 (map (\<lambda>fe. Insert) (filter is_image files))
         (map (\<lambda>fe. (''DB add error'', TypeError)) (filter is_image files))"
    using fold_handleFile_no_db[OF assms] by blast
  then show ?thesis by (simp add: handleFiles_def offline_def)
qed

lemma clearAllClick_no_db:
  assumes "db s = None"
  shows "offline s (clearAllClick confirmed cenv renv s) (if confirmed then [ClearAll] else []) []"
  using assms
  by (simp add: clearAllClick_def clearAllImages_def Let_def objectStore_no_db offline_def enter_def)

lemma dispatch_no_db:
  assumes "db s = None" "card_ids (galleryGrid s) = []"
  shows "offline s (dispatch ev s) (offline_calls ev) (offline_errors ev)"
  using assms handleFiles_no_db clearAllClick_no_db
  by (cases ev) (simp_all add: offline_refl)

lemma run_session_no_db:
  "db s = None \<Longrightarrow> card_ids (galleryGrid s) = [] \<Longrightarrow>
     offline s (fold dispatch evs s) (concat (map offline_calls evs)) (concat (map offline_errors evs))"
proof (induction evs arbitrary: s)
  case Nil
  then show ?case by (simp add: offline_refl)
next
  case (Cons ev evs)
  have 1: "offline s (dispatch ev s) (offline_calls ev) (offline_errors ev)"
    using Cons.prems by (rule dispatch_no_db)
  then have "db (dispatch ev s) = None" "card_ids (galleryGrid (dispatch ev s)) = []"
    using Cons.prems(2) by (simp_all add: offline_def)
  from offline_trans[OF 1 Cons.IH[OF this]] show ?case by simp
qed

lemma offline_calls_only: "set (offline_calls ev) \<subseteq> {Insert, ClearAll}"
  by (cases ev) auto

lemma init_failed:
  assumes "fst (openDB env s) = Inl e"
  shows "init env renv s =
     (enter Initialize s)\<lparr>console := console s @ [(''Failed to open DB'', e)],
                           galleryGrid := [Raw unavailable]\<rparr>"
  using assms openDB_Inl[OF assms]
  by (cases "openDB env s") (simp add: init_def enter_def)

lemma unavailable_explicit:
  "unavailable = ''<p class='' @ [CHR 0x22] @ ''muted'' @ [CHR 0x22] @ ''>Browser storage is not available in this environment.</p>''"
  by (simp add: unavailable_def attr_def)

text \<open>
  Claim C6, as the code has it. When \<open>openDB\<close> fails at page load, \<open>init\<close> renders the
  message that browser storage is not available. The event listeners stay registered
  and \<open>handleFiles\<close> has no check of \<open>db\<close>: afterwards every dropped or chosen image file
  calls \<open>addImageBlob\<close> once, and the call is rejected with a \<open>TypeError\<close> and logged;
  every confirmed click on clear-all calls \<open>clearAllImages\<close> once. These are the only
  store calls of the session: \<open>getAllImages\<close> and \<open>deleteImageById\<close> are never called.
  No connection is ever set, the browser's databases stay as they were and the gallery
  keeps showing the message.
\<close>

theorem init_failure_session:
  assumes "db s = None" and "fst (openDB open_env s) = Inl e"
  shows "galleryGrid (init open_env ref_env s) = [Raw (''<p class='' @ [CHR 0x22] @ ''muted'' @ [CHR 0x22] @ ''>Browser storage is not available in this environment.</p>'')]
       \<and> galleryGrid (run_session evs (init open_env ref_env s)) = [Raw (''<p class='' @ [CHR 0x22] @ ''muted'' @ [CHR 0x22] @ ''>Browser storage is not available in this environment.</p>'')]
       \<and> idb (run_session evs (init open_env ref_env s)) = idb s
       \<and> db (run_session evs (init open_env ref_env s)) = None
       \<and> calls (run_session evs (init open_env ref_env s))
            = calls s @ [Initialize] @ concat (map offline_calls evs)
       \<and> console (run_session evs (init open_env ref_env s))
            = console s @ [(''Failed to open DB'', e)] @ concat (map offline_errors evs)
       \<and> ListAll \<notin> set (concat (map offline_calls evs))
       \<and> DeleteById \<notin> set (concat (map offline_calls evs))"
proof -
  let ?s1 = "init open_env ref_env s"
  have s1: "db ?s1 = None" "galleryGrid ?s1 = [Raw unavailable]" "idb ?s1 = idb s"
    "calls ?s1 = calls s @ [Initialize]" "console ?s1 = console s @ [(''Failed to open DB'', e)]"
    using assms(1) by (simp_all add: init_failed[OF assms(2)] enter_def)
  have "offline ?s1 (fold dispatch evs ?s1) (concat (map offline_calls evs))
          (concat (map offline_errors evs))"
    using s1(1,2) by (intro run_session_no_db) simp_all
  moreover have "ListAll \<notin> set (concat (map offline_calls evs))"
      "DeleteById \<notin> set (concat (map offline_calls evs))"
    using offline_calls_only by fastforce+
  ultimately show ?thesis
    using s1 by (simp add: offline_def run_session_def unavailable_explicit)
qed

theorem init_failure_session_witness:
  "db (page_load no_storage) = None
   \<and> fst (openDB (Some (RequestError ''SecurityError'')) (page_load no_storage))
        = Inl (RequestError ''SecurityError'')
   \<and> galleryGrid (run_session
        [Drop [(png ''a.png'', all_well 5), (textfile ''notes.txt'', all_well 6)],
         ClearAllButton False None None, ClearAllButton True None None,
         Change [(png ''b.png'', all_well 7)]]
        (init (Some (RequestError ''SecurityError'')) None (page_load no_storage)))
        = [Raw (''<p class='' @ [CHR 0x22] @ ''muted'' @ [CHR 0x22] @ ''>Browser storage is not available in this environment.</p>'')]
   \<and> idb (run_session
        [Drop [(png ''a.png'', all_well 5), (textfile ''notes.txt'', all_well 6)],
         ClearAllButton False None None, ClearAllButton True None None,
         Change [(png ''b.png'', all_well 7)]]
        (init (Some (RequestError ''SecurityError'')) None (page_load no_storage))) = no_storage
   \<and> calls (run_session
        [Drop [(png ''a.png'', all_well 5), (textfile ''notes.txt'', all_well 6)],
         ClearAllButton False None None, ClearAllButton True None None,
         Change [(png ''b.png'', all_well 7)]]
        (init (Some (RequestError ''SecurityError'')) None (page_load no_storage)))
        = [Initialize, Insert, ClearAll, Insert]
   \<and> console (run_session
        [Drop [(png ''a.png'', all_well 5), (textfile ''notes.txt'', all_well 6)],
         ClearAllButton False None None, ClearAllButton True None None,
         Change [(png ''b.png'', all_well 7)]]
        (init (Some (RequestError ''SecurityError'')) None (page_load no_storage)))
        = [(''Failed to open DB'', RequestError ''SecurityError''),
           (''DB add error'', TypeError), (''DB add error'', TypeError)]"
proof -
  have h1: "db (page_load no_storage) = None" by (simp add: page_load_def)
  have h2: "fst (openDB (Some (RequestError ''SecurityError'')) (page_load no_storage))
      = Inl (RequestError ''SecurityError'')"
    by (simp add: openDB_def Let_def)
  have c: "calls (page_load no_storage) = []" "idb (page_load no_storage) = no_storage"
    "console (page_load no_storage) = []"
    by (simp_all add: page_load_def)
  have i: "is_image (png n, e)" "\<not> is_image (textfile n, e)" for n e
    by (simp_all add: is_image_def png_def textfile_def)
  show ?thesis
    using init_failure_session[OF h1 h2, of None
        "[Drop [(png ''a.png'', all_well 5), (textfile ''notes.txt'', all_well 6)],
          ClearAllButton False None None, ClearAllButton True None None,
          Change [(png ''b.png'', all_well 7)]]"] h1 h2
    by (simp add: c i)
qed

text \<open>
  Claim C6 as stated does not hold: after a failed \<open>init\<close>, dropping one image file
  calls \<open>addImageBlob\<close>.
\<close>

theorem init_failure_still_inserts:
  "Insert \<in> set (calls (run_session
      [Drop [(\<lparr>file_name = ''a.png'', file_type = ''image/png'', file_bytes = [1]\<rparr>,
              \<lparr>date_now = 5, add_env = None, reader_result = None, refresh_env = None\<rparr>)]]
      (init (Some (RequestError ''SecurityError'')) None (page_load no_storage))))"
  by (simp add: run_session_def handleFiles_def handleFile_def init_def openDB_def Let_def
        page_load_def enter_def show_preview_def addImageBlob_def objectStore_def)

section \<open>A batch with one failing insert\<close>

lemma objectStore_show_preview [simp]: "objectStore (show_preview r s) = objectStore s"
  by (simp add: show_preview_def objectStore_def split: option.splits)

lemma console_show_preview [simp]: "console (show_preview r s) = console s"
  by (simp add: show_preview_def split: option.splits)

lemma objectStore_console [simp]: "objectStore (s\<lparr>console := x\<rparr>) = objectStore s"
  by (simp add: objectStore_def split: option.splits)

lemma objectStore_fileElem [simp]: "objectStore (s\<lparr>fileElem_value := x\<rparr>) = objectStore s"
  by (simp add: objectStore_def split: option.splits)

lemma objectStore_galleryGrid [simp]: "objectStore (s\<lparr>galleryGrid := x\<rparr>) = objectStore s"
  by (simp add: objectStore_def split: option.splits)

lemma handleFile_added:
  assumes "objectStore s = Inr st" "store_inv st"
    and "startsWith (file_type f) ''image/''" and "add_env env = None"
  shows "\<exists>s'. handleFile (f, env) (s, p) = (s', p @ [refresh_env env])
       \<and> objectStore s' = Inr \<lparr>records = records st @
              [\<lparr>id_key = keygen st, name = Str (file_name f),
                blob = slice f 0 (file_size f) (file_type f), created = date_now env\<rparr>],
            keygen = keygen st + 1\<rparr>
       \<and> console s' = console s"
proof -
  let ?s1 = "show_preview (reader_result env) s"
  have os: "objectStore ?s1 = Inr st" using assms(1) by simp
  have os': "objectStore (enter Insert ?s1) = Inr st" using assms(1) by simp
  show ?thesis
    using assms(3,4) objectStore_commit[OF os']
    by (simp add: handleFile_def Let_def addImageBlob_ok[OF os assms(2)])
qed

lemma handleFile_failed:
  assumes "objectStore s = Inr st"
    and "startsWith (file_type f) ''image/''" and "add_env env = Some err"
  shows "\<exists>s'. handleFile (f, env) (s, p) = (s', p)
       \<and> objectStore s' = Inr st \<and> console s' = console s @ [(''DB add error'', err)]"
  using assms by (simp add: handleFile_def Let_def addImageBlob_def)

lemma objectStore_appendCard [simp]: "objectStore (appendCard item s) = objectStore s"
  by (simp add: appendCard_def createObjectURL_def objectStore_def split: option.splits)

lemma console_appendCard [simp]: "console (appendCard item s) = console s"
  by (simp add: appendCard_def createObjectURL_def)

lemma render_items_keeps [simp]:
  "objectStore (render_items items s) = objectStore s" "console (render_items items s) = console s"
  by (induction items arbitrary: s) simp_all

lemma refreshGallery_keeps [simp]:
  "objectStore (refreshGallery env s) = objectStore s" "console (refreshGallery env s) = console s"
  by (auto simp: refreshGallery_def getAllImages_def Let_def
        split: sum.splits option.splits prod.splits)

lemma refreshGallery_failed:
  "galleryGrid (refreshGallery (Some e) s) = galleryGrid s"
  by (simp add: refreshGallery_def getAllImages_def Let_def enter_def split: sum.splits)

lemma refreshGallery_cards:
  assumes "objectStore s = Inr st" "records st \<noteq> []"
  shows "\<exists>n. galleryGrid (refreshGallery None s) = cards_from n (js_sort newest_first (records st))"
  using galleryGrid_refresh[OF assms] by blast

lemma fold_refresh_keeps [simp]:
  "objectStore (fold refreshGallery pending s) = objectStore s"
  "console (fold refreshGallery pending s) = console s"
  by (induction pending arbitrary: s) simp_all

lemma fold_refresh_failed:
  "None \<notin> set pending \<Longrightarrow> galleryGrid (fold refreshGallery pending s) = galleryGrid s"
proof (induction pending arbitrary: s)
  case Nil
  then show ?case by simp
next
  case (Cons r pending)
  then obtain e where "r = Some e" by (cases r) auto
  with Cons show ?case by (simp add: refreshGallery_failed)
qed

lemma fold_refresh_cards:
  assumes "objectStore s = Inr st" "records st \<noteq> []" "None \<in> set pending"
  shows "\<exists>n. galleryGrid (fold refreshGallery pending s)
             = cards_from n (js_sort newest_first (records st))"
  using assms
proof (induction pending arbitrary: s)
  case Nil
  then show ?case by simp
next
  case (Cons r pending)
  have os: "objectStore (refreshGallery r s) = Inr st" using Cons.prems(1) by simp
  show ?case
  proof (cases "None \<in> set pending")
    case True
    from Cons.IH[OF os Cons.prems(2) True] show ?thesis by simp
  next
    case False
    then have r: "r = None" using Cons.prems(3) by simp
    obtain n where "galleryGrid (refreshGallery None s)
        = cards_from n (js_sort newest_first (records st))"
      using refreshGallery_cards[OF Cons.prems(1,2)] by blast
    then show ?thesis by (auto simp: r fold_refresh_failed[OF False])
  qed
qed

lemma handleFile_skipped:
  "\<not> startsWith (file_type f) ''image/'' \<Longrightarrow> handleFile (f, env) (s, p) = (s, p)"
  by (simp add: handleFile_def)

lemma fold_handleFile_batch:
  "objectStore s = Inr st \<Longrightarrow> store_inv st \<Longrightarrow>
     \<exists>s'. fold handleFile files (s, p) = (s', p @ batch_refreshes files)
        \<and> objectStore s' = Inr \<lparr>records = records st @ batch_records (keygen st) files,
              keygen = keygen st + int (length (batch_records (keygen st) files))\<rparr>
        \<and> console s' = console s @ batch_errors files"
proof (induction files arbitrary: s st p)
  case Nil
  then show ?case by simp
next
  case (Cons fe files)
  obtain f env where fe: "fe = (f, env)" by (cases fe)
  show ?case
  proof (cases "startsWith (file_type f) ''image/''")
    case False
    from Cons.IH[OF Cons.prems, of p] show ?thesis
      by (simp add: fe False handleFile_skipped)
  next
    case True
    show ?thesis
    proof (cases "add_env env")
      case None
      let ?st1 = "\<lparr>records = records st @
              [\<lparr>id_key = keygen st, name = Str (file_name f),
                blob = slice f 0 (file_size f) (file_type f), created = date_now env\<rparr>],
            keygen = keygen st + 1\<rparr>"
      obtain s1 where 1: "handleFile (f, env) (s, p) = (s1, p @ [refresh_env env])"
          "objectStore s1 = Inr ?st1" "console s1 = console s"
        using handleFile_added[OF Cons.prems True None, of p] by auto
      have inv: "store_inv ?st1" using Cons.prems(2) by (rule store_inv_add)
      from Cons.IH[OF 1(2) inv, of "p @ [refresh_env env]"] show ?thesis
        by (simp add: fe True None 1 add.assoc)
    next
      case (Some err)
      obtain s1 where 1: "handleFile (f, env) (s, p) = (s1, p)"
          "objectStore s1 = Inr st" "console s1 = console s @ [(''DB add error'', err)]"
        using handleFile_failed[OF Cons.prems(1) True Some, of p] by auto
      from Cons.IH[OF 1(2) Cons.prems(2), of p] show ?thesis
        by (simp add: fe True Some 1)
    qed
  qed
qed

lemma batch_records_Nil: "batch_records k files = [] \<Longrightarrow> batch_refreshes files = []"
  by (induction k files rule: batch_records.induct) (auto split: if_splits)

lemma handleFiles_batch:
  assumes "objectStore s = Inr st" and "store_inv st"
  shows "objectStore (handleFiles files s) =
           Inr \<lparr>records = records st @ batch_records (keygen st) files,
                keygen = keygen st + int (length (batch_records (keygen st) files))\<rparr>"
    and "console (handleFiles files s) = console s @ batch_errors files"
    and "None \<in> set (batch_refreshes files) \<Longrightarrow>
           \<exists>n. galleryGrid (handleFiles files s) =
                 cards_from n (js_sort newest_first (records st @ batch_records (keygen st) files))"
proof -
  let ?st' = "\<lparr>records = records st @ batch_records (keygen st) files,
                keygen = keygen st + int (length (batch_records (keygen st) files))\<rparr>"
  obtain s1 where 1: "fold handleFile files (s, []) = (s1, batch_refreshes files)"
      "objectStore s1 = Inr ?st'" "console s1 = console s @ batch_errors files"
    using fold_handleFile_batch[OF assms, of files "[]"] by auto
  have hf: "handleFiles files s = fold refreshGallery (batch_refreshes files) (s1\<lparr>fileElem_value := []\<rparr>)"
    by (simp add: handleFiles_def 1)
  have os: "objectStore (s1\<lparr>fileElem_value := []\<rparr>) = Inr ?st'" using 1(2) by simp
  show "objectStore (handleFiles files s) = Inr ?st'" by (simp add: hf 1)
  show "console (handleFiles files s) = console s @ batch_errors files" by (simp add: hf 1)
  show "\<exists>n. galleryGrid (handleFiles files s) =
                 cards_from n (js_sort newest_first (records st @ batch_records (keygen st) files))"
    if h: "None \<in> set (batch_refreshes files)"
  proof -
    have "batch_records (keygen st) files \<noteq> []" using h batch_records_Nil by fastforce
    then have ne: "records ?st' \<noteq> []" by simp
    from fold_refresh_cards[OF os ne h] show ?thesis by (simp add: hf)
  qed
qed

text \<open>
  Claim C7. A batch of files is dropped on a session with a reachable store. Whatever
  the batch is and whichever adds the browser fails, afterwards the store holds what
  it held before followed by one record for every image file whose add went through,
  in file order, and the console has one entry for every add that failed: a failure
  neither stops nor undoes the adds of the other files. When at least one of the
  refreshes reads the store, the gallery shows exactly the cards of the stored
  records, newest first. For three image files of which the browser fails the second,
  the store ends with the records of the first and the third.
\<close>

theorem batch_isolates_failure:
  assumes "objectStore s = Inr st" and "store_inv st"
  shows "objectStore (handleFiles files s) =
           Inr \<lparr>records = records st @ batch_records (keygen st) files,
                keygen = keygen st + int (length (batch_records (keygen st) files))\<rparr>
       \<and> console (handleFiles files s) = console s @ batch_errors files
       \<and> (None \<in> set (batch_refreshes files) \<longrightarrow>
            (\<exists>n. galleryGrid (handleFiles files s) =
                 cards_from n (js_sort newest_first (records st @ batch_records (keygen st) files))))
       \<and> (startsWith (file_type f1) ''image/'' \<and> startsWith (file_type f2) ''image/''
            \<and> startsWith (file_type f3) ''image/''
            \<and> add_env e1 = None \<and> add_env e2 = Some err \<and> add_env e3 = None
            \<and> (refresh_env e1 = None \<or> refresh_env e3 = None) \<longrightarrow>
          (\<exists>n. objectStore (handleFiles [(f1, e1), (f2, e2), (f3, e3)] s) =
             Inr \<lparr>records = records st @
                    [\<lparr>id_key = keygen st, name = Str (file_name f1),
                      blob = slice f1 0 (file_size f1) (file_type f1), created = date_now e1\<rparr>,
                     \<lparr>id_key = keygen st + 1, name = Str (file_name f3),
                      blob = slice f3 0 (file_size f3) (file_type f3), created = date_now e3\<rparr>],
                  keygen = keygen st + 2\<rparr>
           \<and> galleryGrid (handleFiles [(f1, e1), (f2, e2), (f3, e3)] s) =
               cards_from n (js_sort newest_first (records st @
                    [\<lparr>id_key = keygen st, name = Str (file_name f1),
                      blob = slice f1 0 (file_size f1) (file_type f1), created = date_now e1\<rparr>,
                     \<lparr>id_key = keygen st + 1, name = Str (file_name f3),
                      blob = slice f3 0 (file_size f3) (file_type f3), created = date_now e3\<rparr>]))
           \<and> console (handleFiles [(f1, e1), (f2, e2), (f3, e3)] s)
               = console s @ [(''DB add error'', err)]))"
proof (intro conjI impI)
  show "objectStore (handleFiles files s) =
           Inr \<lparr>records = records st @ batch_records (keygen st) files,
                keygen = keygen st + int (length (batch_records (keygen st) files))\<rparr>"
    by (rule handleFiles_batch(1)[OF assms])
  show "console (handleFiles files s) = console s @ batch_errors files"
    by (rule handleFiles_batch(2)[OF assms])
  show "\<exists>n. galleryGrid (handleFiles files s) =
                 cards_from n (js_sort newest_first (records st @ batch_records (keygen st) files))"
    if "None \<in> set (batch_refreshes files)"
    using that by (rule handleFiles_batch(3)[OF assms])
  show "\<exists>n. objectStore (handleFiles [(f1, e1), (f2, e2), (f3, e3)] s) =
             Inr \<lparr>records = records st @
                    [\<lparr>id_key = keygen st, name = Str (file_name f1),
                      blob = slice f1 0 (file_size f1) (file_type f1), created = date_now e1\<rparr>,
                     \<lparr>id_key = keygen st + 1, name = Str (file_name f3),
                      blob = slice f3 0 (file_size f3) (file_type f3), created = date_now e3\<rparr>],
                  keygen = keygen st + 2\<rparr>
           \<and> galleryGrid (handleFiles [(f1, e1), (f2, e2), (f3, e3)] s) =
               cards_from n (js_sort newest_first (records st @
                    [\<lparr>id_key = keygen st, name = Str (file_name f1),
                      blob = slice f1 0 (file_size f1) (file_type f1), created = date_now e1\<rparr>,
                     \<lparr>id_key = keygen st + 1, name = Str (file_name f3),
                      blob = slice f3 0 (file_size f3) (file_type f3), created = date_now e3\<rparr>]))
           \<and> console (handleFiles [(f1, e1), (f2, e2), (f3, e3)] s)
               = console s @ [(''DB add error'', err)]"
    if h: "startsWith (file_type f1) ''image/'' \<and> startsWith (file_type f2) ''image/''
            \<and> startsWith (file_type f3) ''image/''
            \<and> add_env e1 = None \<and> add_env e2 = Some err \<and> add_env e3 = None
            \<and> (refresh_env e1 = None \<or> refresh_env e3 = None)"
  proof -
    let ?files = "[(f1, e1), (f2, e2), (f3, e3)]"
    have r: "batch_records (keygen st) ?files = [\<lparr>id_key = keygen st, name = Str (file_name f1),
                      blob = slice f1 0 (file_size f1) (file_type f1), created = date_now e1\<rparr>,
                     \<lparr>id_key = keygen st + 1, name = Str (file_name f3),
                      blob = slice f3 0 (file_size f3) (file_type f3), created = date_now e3\<rparr>]"
      and e: "batch_errors ?files = [(''DB add error'', err)]"
      and p: "batch_refreshes ?files = [refresh_env e1, refresh_env e3]"
      using h by simp_all
    have n: "None \<in> set (batch_refreshes ?files)" using h unfolding p by auto
    obtain n where g: "galleryGrid (handleFiles ?files s) =
        cards_from n (js_sort newest_first (records st @ batch_records (keygen st) ?files))"
      using handleFiles_batch(3)[OF assms n] by blast
    show ?thesis
      using handleFiles_batch(1,2)[OF assms, of ?files] g unfolding r e
      by (intro exI[of _ n]) simp
  qed
qed

theorem batch_isolates_failure_witness:
  "objectStore first_open = Inr \<lparr>records = [], keygen = 1\<rparr>
   \<and> store_inv \<lparr>records = [], keygen = 1\<rparr>
   \<and> objectStore (handleFiles [(png ''a.png'', all_well 10),
          (png ''b.png'', (all_well 20)\<lparr>add_env := Some (RequestError ''QuotaExceededError'')\<rparr>),
          (png ''c.png'', all_well 30)] first_open) =
        Inr \<lparr>records =
              [\<lparr>id_key = 1, name = Str ''a.png'',
                blob = \<lparr>bytes = [137, 80, 78, 71], ctype = ''image/png''\<rparr>, created = 10\<rparr>,
               \<lparr>id_key = 2, name = Str ''c.png'',
                blob = \<lparr>bytes = [137, 80, 78, 71], ctype = ''image/png''\<rparr>, created = 30\<rparr>],
             keygen = 3\<rparr>
   \<and> card_ids (galleryGrid (handleFiles [(png ''a.png'', all_well 10),
          (png ''b.png'', (all_well 20)\<lparr>add_env := Some (RequestError ''QuotaExceededError'')\<rparr>),
          (png ''c.png'', all_well 30)] first_open)) = [2, 1]
   \<and> console (handleFiles [(png ''a.png'', all_well 10),
          (png ''b.png'', (all_well 20)\<lparr>add_env := Some (RequestError ''QuotaExceededError'')\<rparr>),
          (png ''c.png'', all_well 30)] first_open)
        = [(''DB add error'', RequestError ''QuotaExceededError'')]
   \<and> objectStore (handleFiles [(png ''a.png'', (all_well 10)\<lparr>add_env := Some (RequestError ''QuotaExceededError'')\<rparr>),
          (png ''b.png'', (all_well 20)\<lparr>refresh_env := Some (RequestError ''UnknownError'')\<rparr>),
          (textfile ''notes.txt'', all_well 25),
          (png ''c.png'', (all_well 30)\<lparr>add_env := Some (RequestError ''UnknownError'')\<rparr>),
          (png ''d.png'', all_well 40), (png ''e.png'', all_well 50)] first_open) =
        Inr \<lparr>records =
              [\<lparr>id_key = 1, name = Str ''b.png'',
                blob = \<lparr>bytes = [137, 80, 78, 71], ctype = ''image/png''\<rparr>, created = 20\<rparr>,
               \<lparr>id_key = 2, name = Str ''d.png'',
                blob = \<lparr>bytes = [137, 80, 78, 71], ctype = ''image/png''\<rparr>, created = 40\<rparr>,
               \<lparr>id_key = 3, name = Str ''e.png'',
                blob = \<lparr>bytes = [137, 80, 78, 71], ctype = ''image/png''\<rparr>, created = 50\<rparr>],
             keygen = 4\<rparr>
   \<and> card_ids (galleryGrid (handleFiles [(png ''a.png'', (all_well 10)\<lparr>add_env := Some (RequestError ''QuotaExceededError'')\<rparr>),
          (png ''b.png'', (all_well 20)\<lparr>refresh_env := Some (RequestError ''UnknownError'')\<rparr>),
          (textfile ''notes.txt'', all_well 25),
          (png ''c.png'', (all_well 30)\<lparr>add_env := Some (RequestError ''UnknownError'')\<rparr>),
          (png ''d.png'', all_well 40), (png ''e.png'', all_well 50)] first_open)) = [3, 2, 1]
   \<and> console (handleFiles [(png ''a.png'', (all_well 10)\<lparr>add_env := Some (RequestError ''QuotaExceededError'')\<rparr>),
          (png ''b.png'', (all_well 20)\<lparr>refresh_env := Some (RequestError ''UnknownError'')\<rparr>),
          (textfile ''notes.txt'', all_well 25),
          (png ''c.png'', (all_well 30)\<lparr>add_env := Some (RequestError ''UnknownError'')\<rparr>),
          (png ''d.png'', all_well 40), (png ''e.png'', all_well 50)] first_open)
        = [(''DB add error'', RequestError ''QuotaExceededError''),
           (''DB add error'', RequestError ''UnknownError'')]"
proof -
  have h2: "store_inv \<lparr>records = [], keygen = 1\<rparr>" by (simp add: store_inv_def)
  have c0: "console first_open = []"
    by (simp add: first_open_def openDB_def idb_open_def Let_def page_load_def no_storage_def enter_def)
  have sl: "slice (png n) 0 (file_size (png n)) (file_type (png n))
      = \<lparr>bytes = [137, 80, 78, 71], ctype = ''image/png''\<rparr>" for n
    by (simp add: slice_def png_def file_size_def)
  have ty: "startsWith (file_type (png n)) ''image/''"
      "\<not> startsWith (file_type (textfile n)) ''image/''" "file_name (png n) = n" for n
    by (simp_all add: png_def textfile_def)
  have ids: "card_ids (cards_from n items) = map id_key items" for n items
    by (induction items arbitrary: n) simp_all
  note t3 = batch_isolates_failure[OF objectStore_first_open h2, of "[(png ''a.png'', all_well 10),
          (png ''b.png'', (all_well 20)\<lparr>add_env := Some (RequestError ''QuotaExceededError'')\<rparr>),
          (png ''c.png'', all_well 30)]"]
  note t5 = batch_isolates_failure[OF objectStore_first_open h2, of "[(png ''a.png'', (all_well 10)\<lparr>add_env := Some (RequestError ''QuotaExceededError'')\<rparr>),
          (png ''b.png'', (all_well 20)\<lparr>refresh_env := Some (RequestError ''UnknownError'')\<rparr>),
          (textfile ''notes.txt'', all_well 25),
          (png ''c.png'', (all_well 30)\<lparr>add_env := Some (RequestError ''UnknownError'')\<rparr>),
          (png ''d.png'', all_well 40), (png ''e.png'', all_well 50)]"]
  have g3: "card_ids (galleryGrid (handleFiles [(png ''a.png'', all_well 10),
          (png ''b.png'', (all_well 20)\<lparr>add_env := Some (RequestError ''QuotaExceededError'')\<rparr>),
          (png ''c.png'', all_well 30)] first_open)) = [2, 1]"
    using t3[THEN conjunct2, THEN conjunct2, THEN conjunct1]
    by (auto simp: ty sl ids all_well_def js_sort_def newest_first_def)
  have g5: "card_ids (galleryGrid (handleFiles [(png ''a.png'', (all_well 10)\<lparr>add_env := Some (RequestError ''QuotaExceededError'')\<rparr>),
          (png ''b.png'', (all_well 20)\<lparr>refresh_env := Some (RequestError ''UnknownError'')\<rparr>),
          (textfile ''notes.txt'', all_well 25),
          (png ''c.png'', (all_well 30)\<lparr>add_env := Some (RequestError ''UnknownError'')\<rparr>),
          (png ''d.png'', all_well 40), (png ''e.png'', all_well 50)] first_open)) = [3, 2, 1]"
    using t5[THEN conjunct2, THEN conjunct2, THEN conjunct1]
    by (auto simp: ty sl ids all_well_def js_sort_def newest_first_def)
  show ?thesis
    using t3[THEN conjunct1] t3[THEN conjunct2, THEN conjunct1]
      t5[THEN conjunct1] t5[THEN conjunct2, THEN conjunct1] objectStore_first_open h2 g3 g5
    by (simp add: c0 ty sl all_well_def)
qed

end
